theory Spec2Isabelle
  imports Main "HOL-Library.AList"
begin

section \<open>Python values used by generate\_schemas.py\<close>

text \<open>
  A Python \<open>str\<close> is modelled as a \<open>string\<close> whose characters stand for the code
  points U+0000 to U+00FF. On that range the library functions below agree with
  Python 3: \<open>str.lower\<close>, \<open>str.strip\<close>, \<open>str.endswith\<close>, the \<open>in\<close> operator on
  strings, \<open>str.replace\<close> and \<open>'\\n'.join\<close>.
\<close>

definition is_space :: "char \<Rightarrow> bool" where
  \<comment> \<open>\<open>str.isspace\<close> on one code point below 256; also the class \<open>\\s\<close> of \<open>re\<close>.\<close>
  "is_space c =
     (let n = (of_char c :: nat)
      in (9 \<le> n \<and> n \<le> 13) \<or> (28 \<le> n \<and> n \<le> 32) \<or> n = 133 \<or> n = 160)"

definition lower_char :: "char \<Rightarrow> char" where
  "lower_char c =
     (let n = (of_char c :: nat)
      in if (65 \<le> n \<and> n \<le> 90) \<or> (192 \<le> n \<and> n \<le> 222 \<and> n \<noteq> 215)
         then char_of (n + 32) else c)"

definition py_lower :: "string \<Rightarrow> string" where
  "py_lower s = map lower_char s"

definition py_strip :: "string \<Rightarrow> string" where
  "py_strip s = rev (dropWhile is_space (rev (dropWhile is_space s)))"

fun py_startswith :: "string \<Rightarrow> string \<Rightarrow> bool" where
  "py_startswith s [] = True"
| "py_startswith [] (p # ps) = False"
| "py_startswith (c # cs) (p # ps) = (c = p \<and> py_startswith cs ps)"

definition py_endswith :: "string \<Rightarrow> string \<Rightarrow> bool" where
  "py_endswith s suffix = py_startswith (rev s) (rev suffix)"

fun py_contains :: "string \<Rightarrow> string \<Rightarrow> bool" where
  \<comment> \<open>\<open>sub in s\<close>\<close>
  "py_contains sub [] = (sub = [])"
| "py_contains sub (c # cs) = (py_startswith (c # cs) sub \<or> py_contains sub cs)"

function py_replace_from :: "string \<Rightarrow> string \<Rightarrow> string \<Rightarrow> string" where
  "py_replace_from old new [] = []"
| "py_replace_from old new (c # cs) =
     (if old \<noteq> [] \<and> py_startswith (c # cs) old
      then new @ py_replace_from old new (drop (length old) (c # cs))
      else c # py_replace_from old new cs)"
  by pat_completeness auto
termination
  by (relation "measure (\<lambda>(old, new, s). length s)") (auto simp: neq_Nil_conv)

definition py_replace :: "string \<Rightarrow> string \<Rightarrow> string \<Rightarrow> string" where
  \<comment> \<open>\<open>s.replace(old, new)\<close>: every occurrence, left to right, without overlap;
      an empty \<open>old\<close> matches before each character and at the end.\<close>
  "py_replace s old new =
     (if old = [] then new @ concat (map (\<lambda>c. c # new) s)
      else py_replace_from old new s)"

fun py_join :: "string \<Rightarrow> string list \<Rightarrow> string" where
  "py_join sep [] = []"
| "py_join sep [x] = x"
| "py_join sep (x # y # ys) = x @ sep @ py_join sep (y # ys)"

text \<open>Decimal text of an integer, as \<open>str(n)\<close> and \<open>json.dumps(n)\<close> print it.\<close>

fun show_nat :: "nat \<Rightarrow> string" where
  "show_nat n =
     (if n < 10 then [char_of (48 + n)]
      else show_nat (n div 10) @ [char_of (48 + n mod 10)])"

declare show_nat.simps [simp del]

definition show_int :: "int \<Rightarrow> string" where
  "show_int i = (if i < 0 then CHR ''-'' # show_nat (nat (- i)) else show_nat (nat i))"

text \<open>
  The values that the script builds and hands to \<open>json.dumps\<close>. A \<open>dict\<close> is an
  association list in insertion order with distinct keys: \<open>d[k] = v\<close> is
  \<open>AList.update k v d\<close>, which overwrites in place or appends.
\<close>

datatype json =
    JNull
  | JBool bool
  | JInt int
  | JStr string
  | JList "json list"
  | JObj "(string \<times> json) list"

text \<open>The exceptions that the modelled code can raise, with their message.\<close>

datatype py_error =
    KeyError string
  | AttributeError string
  | DatabaseError string
  | OSError string

text \<open>The module-level logger: every call appends one record to the log.\<close>

datatype level = Info | Warning | Error

type_synonym log = "(level \<times> string) list"

fun dict_contains :: "(string \<times> 'v) list \<Rightarrow> string \<Rightarrow> bool" where
  \<comment> \<open>\<open>k in d\<close>\<close>
  "dict_contains [] k = False"
| "dict_contains ((k', v) # d) k = (k' = k \<or> dict_contains d k)"

fun dict_get :: "(string \<times> 'v) list \<Rightarrow> string \<Rightarrow> py_error + 'v" where
  \<comment> \<open>\<open>d[k]\<close>, which raises \<open>KeyError\<close> on a missing key\<close>
  "dict_get [] k = Inl (KeyError k)"
| "dict_get ((k', v) # d) k = (if k' = k then Inr v else dict_get d k)"

section \<open>TypeMapper\<close>

definition TYPE_MAP :: "(string \<times> string) list" where
  "TYPE_MAP =
    [(''bigint'', ''int64''),
     (''integer'', ''int32''),
     (''int'', ''int32''),
     (''smallint'', ''int32''),
     (''real'', ''float32''),
     (''double precision'', ''float64''),
     (''double'', ''float64''),
     (''numeric'', ''double''),
     (''decimal'', ''double''),
     (''text'', ''string''),
     (''varchar'', ''string''),
     (''char'', ''string''),
     (''character'', ''string''),
     (''character varying'', ''string''),
     (''boolean'', ''boolean''),
     (''bool'', ''boolean''),
     (''bytea'', ''bytes'')]"

definition TEMPORAL_TYPES :: "(string \<times> string \<times> string) list" where
  "TEMPORAL_TYPES =
    [(''timestamp'', ''int64'', ''org.apache.kafka.connect.data.Timestamp''),
     (''timestamp with time zone'', ''int64'', ''org.apache.kafka.connect.data.Timestamp''),
     (''timestamp without time zone'', ''int64'', ''org.apache.kafka.connect.data.Timestamp''),
     (''date'', ''int32'', ''org.apache.kafka.connect.data.Date''),
     (''time'', ''int32'', ''org.apache.kafka.connect.data.Time''),
     (''time with time zone'', ''int32'', ''org.apache.kafka.connect.data.Time''),
     (''time without time zone'', ''int32'', ''org.apache.kafka.connect.data.Time'')]"

text \<open>
  The result of \<open>map_type\<close>: the Kafka Connect type, the logical type name or
  \<open>None\<close>, the additional properties or \<open>None\<close>.
\<close>

type_synonym type_mapping = "string \<times> string option \<times> (string \<times> json) list option"

definition normalize_type :: "string \<Rightarrow> string" where
  \<comment> \<open>\<open>materialize_type.lower().strip()\<close>\<close>
  "normalize_type materialize_type = py_strip (py_lower materialize_type)"

definition map_type :: "string \<Rightarrow> (py_error + type_mapping) \<times> log" where
  "map_type materialize_type =
     (let normalized_type = normalize_type materialize_type in
      if dict_contains TEMPORAL_TYPES normalized_type then
        (case dict_get TEMPORAL_TYPES normalized_type of
           Inl e \<Rightarrow> (Inl e, [])
         | Inr (base_type, logical_type) \<Rightarrow>
             (Inr (base_type, Some logical_type, Some [(''version'', JInt 1)]), []))
      else if dict_contains TYPE_MAP normalized_type then
        (case dict_get TYPE_MAP normalized_type of
           Inl e \<Rightarrow> (Inl e, [])
         | Inr kafka_type \<Rightarrow> (Inr (kafka_type, None, None), []))
      else if py_endswith normalized_type ''[]'' then
        (Inr (''string'', None, None),
         [(Warning, ''Array type '' @ [CHR 0x27] @ materialize_type @ [CHR 0x27] @
             '' detected. Arrays are not fully supported yet. Using '' @ [CHR 0x27] @
             ''string'' @ [CHR 0x27] @ '' as fallback.'')])
      else if py_contains ''json'' normalized_type then
        (Inr (''string'', None, None),
         [(Warning, ''JSON type '' @ [CHR 0x27] @ materialize_type @ [CHR 0x27] @
             '' detected. Using '' @ [CHR 0x27] @ ''string'' @ [CHR 0x27] @
             '' representation.'')])
      else
        (Inr (''string'', None, None),
         [(Warning, ''Unknown type '' @ [CHR 0x27] @ materialize_type @ [CHR 0x27] @
             ''. Defaulting to '' @ [CHR 0x27] @ ''string'' @ [CHR 0x27] @ ''.'')]))"

section \<open>Column and Sink\<close>

record Column =
  col_name :: string
  col_type :: string
  col_nullable :: bool
  col_position :: int

text \<open>
  The dataclass declares \<open>topic: str\<close>, but \<open>_parse_create_sink\<close> stores \<open>None\<close>
  there when its pattern finds no topic, so the field holds a string or \<open>None\<close>.
\<close>

record Sink =
  sink_name :: string
  sink_topic :: "string option"
  sink_source_object :: string
  sink_columns :: "Column list"

section \<open>SchemaGenerator\<close>

definition default_schema_namespace :: string where
  "default_schema_namespace = ''materialize''"

definition SchemaGenerator_init :: "string option \<Rightarrow> string" where
  \<comment> \<open>\<open>__init__(self, schema_namespace='materialize')\<close>: the namespace the generator keeps\<close>
  "SchemaGenerator_init schema_namespace =
     (case schema_namespace of None \<Rightarrow> default_schema_namespace | Some ns \<Rightarrow> ns)"

definition dict_update :: "(string \<times> json) list \<Rightarrow> (string \<times> json) list \<Rightarrow> (string \<times> json) list" where
  \<comment> \<open>\<open>d.update(other)\<close>\<close>
  "dict_update d other = foldl (\<lambda>acc kv. AList.update (fst kv) (snd kv) acc) d other"

definition make_field :: "Column \<Rightarrow> type_mapping \<Rightarrow> (string \<times> json) list" where
  \<comment> \<open>the body of the loop of \<open>generate_schema\<close> after the call of \<open>map_type\<close>\<close>
  "make_field column m =
     (case m of (kafka_type, logical_type, extra_props) \<Rightarrow>
        (let field = [(''type'', JStr kafka_type),
                      (''optional'', JBool (col_nullable column)),
                      (''field'', JStr (col_name column))]
         in case logical_type of
              None \<Rightarrow> field
            | Some l \<Rightarrow>
                if l = [] then field
                else (let field = AList.update ''name'' (JStr l) field
                      in case extra_props of
                           None \<Rightarrow> field
                         | Some props \<Rightarrow> if props = [] then field else dict_update field props)))"

fun generate_fields :: "Column list \<Rightarrow> json list \<Rightarrow> log \<Rightarrow> (py_error + json list) \<times> log" where
  \<comment> \<open>\<open>for column in sink.columns\<close>, with the list \<open>fields\<close> (here \<open>field_list\<close>) and the log so far\<close>
  "generate_fields [] field_list lg = (Inr field_list, lg)"
| "generate_fields (column # columns) field_list lg =
     (case map_type (col_type column) of
        (Inl e, lg') \<Rightarrow> (Inl e, lg @ lg')
      | (Inr m, lg') \<Rightarrow>
          generate_fields columns (field_list @ [JObj (make_field column m)]) (lg @ lg'))"

definition generate_schema :: "string \<Rightarrow> Sink \<Rightarrow> (py_error + json) \<times> log" where
  "generate_schema schema_namespace sink =
     (case generate_fields (sink_columns sink) [] [] of
        (Inl e, lg) \<Rightarrow> (Inl e, lg)
      | (Inr field_list, lg) \<Rightarrow>
          (Inr (JObj [(''type'', JStr ''struct''),
                      (''fields'', JList field_list),
                      (''optional'', JBool False),
                      (''name'', JStr (schema_namespace @ ''.'' @ sink_source_object sink))]),
           lg))"

section \<open>json.dumps\<close>

text \<open>
  \<open>json.dumps\<close> with its default \<open>ensure_ascii=True\<close>: inside a string, the
  backslash, the double quote and the five named control characters have short
  escapes, and every other code point outside \<open>' '\<close> to \<open>'~'\<close> is written
  \<open>\\u00xx\<close> in lower-case hexadecimal.
\<close>

definition hex_digit :: "nat \<Rightarrow> char" where
  "hex_digit d = (if d < 10 then char_of (48 + d) else char_of (87 + d))"

definition json_escape_char :: "char \<Rightarrow> string" where
  "json_escape_char c =
     (let n = (of_char c :: nat) in
      if n = 92 then [CHR 0x5C, CHR 0x5C]
      else if n = 34 then [CHR 0x5C, CHR 0x22]
      else if n = 8 then [CHR 0x5C, CHR ''b'']
      else if n = 12 then [CHR 0x5C, CHR ''f'']
      else if n = 10 then [CHR 0x5C, CHR ''n'']
      else if n = 13 then [CHR 0x5C, CHR ''r'']
      else if n = 9 then [CHR 0x5C, CHR ''t'']
      else if 32 \<le> n \<and> n \<le> 126 then [c]
      else [CHR 0x5C, CHR ''u'', CHR ''0'', CHR ''0'', hex_digit (n div 16), hex_digit (n mod 16)])"

definition json_string :: "string \<Rightarrow> string" where
  "json_string s = [CHR 0x22] @ concat (map json_escape_char s) @ [CHR 0x22]"

text \<open>\<open>json.dumps(v, separators=(',', ': '))\<close>: one line.\<close>

fun json_dumps_compact :: "json \<Rightarrow> string" where
  "json_dumps_compact JNull = ''null''"
| "json_dumps_compact (JBool b) = (if b then ''true'' else ''false'')"
| "json_dumps_compact (JInt i) = show_int i"
| "json_dumps_compact (JStr s) = json_string s"
| "json_dumps_compact (JList xs) =
     (if xs = [] then ''[]''
      else ''['' @ py_join '','' (map json_dumps_compact xs) @ '']'')"
| "json_dumps_compact (JObj kvs) =
     (if kvs = [] then ''{}''
      else ''{'' @
           py_join '',''
             (map (\<lambda>kv. json_string (fst kv) @ '': '' @ json_dumps_compact (snd kv)) kvs) @
           ''}'')"

text \<open>
  \<open>json.dumps(v, indent=2)\<close>: every item of a non-empty list or object starts on a
  line of its own, two spaces deeper than its container; items are separated by a
  comma, key and value by a colon and a space.
\<close>

definition newline_indent :: "nat \<Rightarrow> string" where
  "newline_indent lvl = CHR 0x0A # replicate (2 * lvl) CHR 0x20"

fun json_dumps_indent :: "nat \<Rightarrow> json \<Rightarrow> string" where
  "json_dumps_indent lvl JNull = ''null''"
| "json_dumps_indent lvl (JBool b) = (if b then ''true'' else ''false'')"
| "json_dumps_indent lvl (JInt i) = show_int i"
| "json_dumps_indent lvl (JStr s) = json_string s"
| "json_dumps_indent lvl (JList xs) =
     (if xs = [] then ''[]''
      else ''['' @ newline_indent (Suc lvl) @
           py_join ('','' @ newline_indent (Suc lvl)) (map (json_dumps_indent (Suc lvl)) xs) @
           newline_indent lvl @ '']'')"
| "json_dumps_indent lvl (JObj kvs) =
     (if kvs = [] then ''{}''
      else ''{'' @ newline_indent (Suc lvl) @
           py_join ('','' @ newline_indent (Suc lvl))
             (map (\<lambda>kv. json_string (fst kv) @ '': '' @ json_dumps_indent (Suc lvl) (snd kv)) kvs) @
           newline_indent lvl @ ''}'')"

section \<open>OutputFormatter\<close>

definition NoneType_has_no_replace :: py_error where
  \<comment> \<open>what \<open>input_topic.replace\<close> raises when \<open>input_topic\<close> is \<open>None\<close>\<close>
  "NoneType_has_no_replace =
     AttributeError ([CHR 0x27] @ ''NoneType'' @ [CHR 0x27] @ '' object has no attribute '' @
                     [CHR 0x27] @ ''replace'' @ [CHR 0x27])"

definition output_topic_of :: "string \<Rightarrow> string \<Rightarrow> string" where
  \<comment> \<open>\<open>input_topic.replace('-noschema', '') + output_suffix\<close>\<close>
  "output_topic_of input_topic output_suffix =
     py_replace input_topic ''-noschema'' [] @ output_suffix"

fun format_properties_loop :: "(Sink \<times> json) list \<Rightarrow> string \<Rightarrow> string list \<Rightarrow> py_error + string list" where
  \<comment> \<open>\<open>for sink, schema in zip(sinks, schemas)\<close>, with the list \<open>lines\<close> so far\<close>
  "format_properties_loop [] output_suffix lines = Inr lines"
| "format_properties_loop ((sink, schema) # rest) output_suffix lines =
     (case sink_topic sink of
        None \<Rightarrow> Inl NoneType_has_no_replace
      | Some input_topic \<Rightarrow>
          (let output_topic = output_topic_of input_topic output_suffix;
               schema_json = json_dumps_compact schema
           in format_properties_loop rest output_suffix
                (lines @
                 [''# Sink: '' @ sink_name sink @ '' (from '' @ sink_source_object sink @ '')'',
                  ''schema.topic.'' @ input_topic @ ''='' @ schema_json,
                  ''output.topic.'' @ input_topic @ ''='' @ output_topic,
                  []])))"

definition format_properties :: "Sink list \<Rightarrow> json list \<Rightarrow> string \<Rightarrow> py_error + string" where
  "format_properties sinks schemas output_suffix =
     (case format_properties_loop (zip sinks schemas) output_suffix
             [''# Generated schema configurations'',
              ''# Materialize JSON Schema Attacher'',
              []]
      of Inl e \<Rightarrow> Inl e
       | Inr lines \<Rightarrow> Inr (py_join [CHR 0x0A] lines))"

fun format_json_loop :: "(Sink \<times> json) list \<Rightarrow> string \<Rightarrow> (string \<times> json) list \<Rightarrow> py_error + (string \<times> json) list" where
  \<comment> \<open>\<open>for sink, schema in zip(sinks, schemas)\<close>, with the dict \<open>output\<close> so far\<close>
  "format_json_loop [] output_suffix output = Inr output"
| "format_json_loop ((sink, schema) # rest) output_suffix output =
     (case sink_topic sink of
        None \<Rightarrow> Inl NoneType_has_no_replace
      | Some input_topic \<Rightarrow>
          (let output_topic = output_topic_of input_topic output_suffix
           in format_json_loop rest output_suffix
                (AList.update (sink_name sink)
                   (JObj [(''input_topic'', JStr input_topic),
                          (''output_topic'', JStr output_topic),
                          (''source_object'', JStr (sink_source_object sink)),
                          (''schema'', schema)])
                   output)))"

definition format_json :: "Sink list \<Rightarrow> json list \<Rightarrow> string \<Rightarrow> py_error + string" where
  "format_json sinks schemas output_suffix =
     (case format_json_loop (zip sinks schemas) output_suffix [] of
        Inl e \<Rightarrow> Inl e
      | Inr output \<Rightarrow> Inr (json_dumps_indent 0 (JObj output)))"

section \<open>The two patterns of \_parse\_create\_sink\<close>

text \<open>
  \<open>re.search\<close> tries the pattern at every start position from the left and returns
  the first match. In both patterns each repetition is followed by a character outside
  its own class, so the greedy choice is the only one that can succeed and a matcher
  without backtracking computes the same match.
\<close>

fun re_search :: "(string \<Rightarrow> 'a option) \<Rightarrow> string \<Rightarrow> 'a option" where
  "re_search match_at [] = match_at []"
| "re_search match_at (c # cs) =
     (case match_at (c # cs) of
        Some g \<Rightarrow> Some g
      | None \<Rightarrow> re_search match_at cs)"

fun match_literal :: "string \<Rightarrow> string \<Rightarrow> string option" where
  "match_literal [] s = Some s"
| "match_literal (p # ps) [] = None"
| "match_literal (p # ps) (c # cs) = (if c = p then match_literal ps cs else None)"

fun match_literal_ci :: "string \<Rightarrow> string \<Rightarrow> string option" where
  \<comment> \<open>a literal under \<open>re.IGNORECASE\<close>\<close>
  "match_literal_ci [] s = Some s"
| "match_literal_ci (p # ps) [] = None"
| "match_literal_ci (p # ps) (c # cs) =
     (if lower_char c = lower_char p then match_literal_ci ps cs else None)"

definition match_char :: "char \<Rightarrow> string \<Rightarrow> string option" where
  "match_char p s = (case s of [] \<Rightarrow> None | c # cs \<Rightarrow> if c = p then Some cs else None)"

definition match_spaces1 :: "string \<Rightarrow> string option" where
  \<comment> \<open>\<open>\\s+\<close>\<close>
  "match_spaces1 s =
     (case s of [] \<Rightarrow> None
      | c # cs \<Rightarrow> if is_space c then Some (dropWhile is_space cs) else None)"

definition match_nonspaces1 :: "string \<Rightarrow> string option" where
  \<comment> \<open>\<open>[^\\s]+\<close>\<close>
  "match_nonspaces1 s =
     (case s of [] \<Rightarrow> None
      | c # cs \<Rightarrow> if is_space c then None else Some (dropWhile (\<lambda>c. \<not> is_space c) cs))"

definition match_delimited :: "char \<Rightarrow> string \<Rightarrow> (string \<times> string) option" where
  \<comment> \<open>\<open>q([^q]+)q\<close> for a quote character \<open>q\<close>: the group and the rest\<close>
  "match_delimited q s =
     (case match_char q s of
        None \<Rightarrow> None
      | Some r \<Rightarrow>
          (let g = takeWhile (\<lambda>c. c \<noteq> q) r
           in if g = [] then None
              else (case match_char q (dropWhile (\<lambda>c. c \<noteq> q) r) of
                      None \<Rightarrow> None
                    | Some r' \<Rightarrow> Some (g, r'))))"

definition match_topic_at :: "string \<Rightarrow> string option" where
  \<comment> \<open>\<open>TOPIC\\s*=\\s*'([^']+)'\<close> at the start of \<open>s\<close>, with \<open>re.IGNORECASE\<close>: group 1\<close>
  "match_topic_at s =
     (case match_literal_ci ''TOPIC'' s of
        None \<Rightarrow> None
      | Some r1 \<Rightarrow>
          (case match_char CHR ''='' (dropWhile is_space r1) of
             None \<Rightarrow> None
           | Some r2 \<Rightarrow>
               (case match_delimited (CHR 0x27) (dropWhile is_space r2) of
                  None \<Rightarrow> None
                | Some (g, r3) \<Rightarrow> Some g)))"

definition match_source_at :: "string \<Rightarrow> string option" where
  \<comment> \<open>\<open>FROM\\s+\\[[^\\s]+\\s+AS\\s+"[^"]+"\\."[^"]+"\\."([^"]+)"\\]\<close> at the start of \<open>s\<close>: group 1\<close>
  "match_source_at s =
     Option.bind (match_literal ''FROM'' s) (\<lambda>r.
     Option.bind (match_spaces1 r) (\<lambda>r.
     Option.bind (match_char CHR ''['' r) (\<lambda>r.
     Option.bind (match_nonspaces1 r) (\<lambda>r.
     Option.bind (match_spaces1 r) (\<lambda>r.
     Option.bind (match_literal ''AS'' r) (\<lambda>r.
     Option.bind (match_spaces1 r) (\<lambda>r.
     Option.bind (match_delimited (CHR 0x22) r) (\<lambda>db.
     Option.bind (match_char CHR ''.'' (snd db)) (\<lambda>r.
     Option.bind (match_delimited (CHR 0x22) r) (\<lambda>sch.
     Option.bind (match_char CHR ''.'' (snd sch)) (\<lambda>r.
     Option.bind (match_delimited (CHR 0x22) r) (\<lambda>obj.
     Option.bind (match_char CHR '']'' (snd obj)) (\<lambda>r.
     Some (fst obj))))))))))))))"

definition parse_create_sink :: "string \<Rightarrow> string option \<times> string option" where
  \<comment> \<open>\<open>_parse_create_sink\<close>: (topic, source\_object), each \<open>None\<close> without a match\<close>
  "parse_create_sink create_sql =
     (let topic = re_search match_topic_at create_sql;
          source_object = re_search match_source_at create_sql
      in (topic, source_object))"

section \<open>The catalog\<close>

text \<open>
  The catalog is the database behind the connection: the three relations that the
  queries read, with the columns that they select or compare. A query is a function
  of these relations. Rows come back in the order of the relation, and
  \<open>ORDER BY c.position\<close> is a stable sort by position.
\<close>

record mz_sink =
  mzs_name :: string
  mzs_create_sql :: string
  mzs_type :: string

record mz_object =
  mzo_id :: string
  mzo_name :: string

record mz_column =
  mzc_id :: string
  mzc_name :: string
  mzc_type :: string
  mzc_nullable :: bool
  mzc_position :: int

record catalog =
  mz_sinks :: "mz_sink list"
  mz_materialized_views :: "mz_object list"
  mz_tables :: "mz_object list"
  mz_columns :: "mz_column list"

definition select_sinks :: "catalog \<Rightarrow> string list option \<Rightarrow> (string \<times> string) list" where
  \<comment> \<open>\<open>sink_query\<close>, with \<open>AND s.name IN (...)\<close> when \<open>sink_names\<close> is a non-empty list\<close>
  "select_sinks cat sink_names =
     (let kafka = filter (\<lambda>s. mzs_type s = ''kafka'') (mz_sinks cat);
          chosen = (case sink_names of
                      None \<Rightarrow> kafka
                    | Some names \<Rightarrow>
                        if names = [] then kafka
                        else filter (\<lambda>s. mzs_name s \<in> set names) kafka)
      in map (\<lambda>s. (mzs_name s, mzs_create_sql s)) chosen)"

definition select_columns :: "mz_object list \<Rightarrow> mz_column list \<Rightarrow> string \<Rightarrow> mz_column list" where
  \<comment> \<open>\<open>FROM objects v JOIN mz_columns c ON v.id = c.id WHERE v.name = %s ORDER BY c.position\<close>\<close>
  "select_columns objects columns object_name =
     sort_key mzc_position
       (concat (map (\<lambda>v. filter (\<lambda>c. mzo_id v = mzc_id c) columns)
                    (filter (\<lambda>v. mzo_name v = object_name) objects)))"

definition get_columns :: "catalog \<Rightarrow> string \<Rightarrow> Column list" where
  \<comment> \<open>\<open>_get_columns\<close>: materialized views first, tables when that gives no row\<close>
  "get_columns cat object_name =
     (let rows = select_columns (mz_materialized_views cat) (mz_columns cat) object_name;
          rows = (if rows = []
                  then select_columns (mz_tables cat) (mz_columns cat) object_name
                  else rows)
      in map (\<lambda>row. \<lparr>col_name = mzc_name row, col_type = mzc_type row,
                      col_nullable = mzc_nullable row, col_position = mzc_position row\<rparr>)
             rows)"

section \<open>MaterializeSchemaExtractor\<close>

text \<open>
  The extractor is modelled by the database that its connection parameters reach:
  either \<open>psycopg2.connect\<close> raises an error with some message, or it gives a
  connection to the catalog. The queries on an open connection are taken to succeed.
  Entering and leaving the \<open>with\<close> blocks of the connection and of the cursor does
  not change what the queries return, and the model keeps no state for them.
\<close>

record database =
  db_connect_error :: "string option"
  db_catalog :: catalog

definition connect :: "database \<Rightarrow> (py_error + catalog) \<times> log" where
  "connect db =
     (case db_connect_error db of
        Some e \<Rightarrow> (Inl (DatabaseError e), [(Error, ''Failed to connect to Materialize: '' @ e)])
      | None \<Rightarrow> (Inr (db_catalog db), []))"

definition warn_no_source :: "string \<Rightarrow> level \<times> string" where
  "warn_no_source name =
     (Warning, ''Could not parse source object for sink '' @ [CHR 0x27] @ name @ [CHR 0x27])"

definition warn_no_columns :: "string \<Rightarrow> string \<Rightarrow> level \<times> string" where
  "warn_no_columns name source_object =
     (Warning, ''No columns found for sink '' @ [CHR 0x27] @ name @ [CHR 0x27] @
               '' (source: '' @ source_object @ '')'')"

fun get_sinks_loop :: "catalog \<Rightarrow> (string \<times> string) list \<Rightarrow> Sink list \<Rightarrow> log \<Rightarrow> Sink list \<times> log" where
  \<comment> \<open>\<open>for row in sink_rows\<close>, with the list \<open>sinks\<close> and the log so far\<close>
  "get_sinks_loop cat [] sinks lg = (sinks, lg)"
| "get_sinks_loop cat ((name, create_sql) # rows) sinks lg =
     (case parse_create_sink create_sql of
        (topic, None) \<Rightarrow> get_sinks_loop cat rows sinks (lg @ [warn_no_source name])
      | (topic, Some source_object) \<Rightarrow>
          if source_object = [] then get_sinks_loop cat rows sinks (lg @ [warn_no_source name])
          else (let columns = get_columns cat source_object
                in if columns = []
                   then get_sinks_loop cat rows sinks (lg @ [warn_no_columns name source_object])
                   else get_sinks_loop cat rows
                          (sinks @ [\<lparr>sink_name = name, sink_topic = topic,
                                     sink_source_object = source_object,
                                     sink_columns = columns\<rparr>])
                          lg))"

definition get_sinks :: "database \<Rightarrow> string list option \<Rightarrow> (py_error + Sink list) \<times> log" where
  "get_sinks db sink_names =
     (case connect db of
        (Inl e, lg) \<Rightarrow> (Inl e, lg)
      | (Inr cat, lg) \<Rightarrow>
          (let sink_rows = select_sinks cat sink_names
           in if sink_rows = [] then (Inr [], lg @ [(Warning, ''No Kafka sinks found'')])
              else (case get_sinks_loop cat sink_rows [] lg of
                      (sinks, lg') \<Rightarrow> (Inr sinks, lg'))))"

text \<open>
  One iteration of the loop of \<open>get_sinks\<close>, seen from outside: the warning that it
  logs when it skips the row, or the sink that it appends.
\<close>

definition row_outcome :: "catalog \<Rightarrow> string \<times> string \<Rightarrow> (level \<times> string) + Sink" where
  "row_outcome cat row =
     (case row of (name, create_sql) \<Rightarrow>
        (case parse_create_sink create_sql of
           (topic, None) \<Rightarrow> Inl (warn_no_source name)
         | (topic, Some source_object) \<Rightarrow>
             if source_object = [] then Inl (warn_no_source name)
             else if get_columns cat source_object = []
                  then Inl (warn_no_columns name source_object)
                  else Inr \<lparr>sink_name = name, sink_topic = topic,
                            sink_source_object = source_object,
                            sink_columns = get_columns cat source_object\<rparr>))"

definition outcome_sinks :: "catalog \<Rightarrow> (string \<times> string) list \<Rightarrow> Sink list" where
  "outcome_sinks cat rows =
     concat (map (\<lambda>row. case row_outcome cat row of Inl w \<Rightarrow> [] | Inr s \<Rightarrow> [s]) rows)"

definition outcome_warnings :: "catalog \<Rightarrow> (string \<times> string) list \<Rightarrow> log" where
  "outcome_warnings cat rows =
     concat (map (\<lambda>row. case row_outcome cat row of Inl w \<Rightarrow> [w] | Inr s \<Rightarrow> []) rows)"

section \<open>main\<close>

text \<open>
  \<open>main\<close> from its \<open>try\<close> block on: the parsed arguments and the environment are
  given as the record \<open>args\<close>. It returns the exit code, the log and what was written.
\<close>

datatype output_format = Properties | Json

record args =
  arg_host :: string
  arg_port :: int
  arg_sinks :: "string list option"
  arg_format :: output_format
  arg_output :: "string option"
  arg_schema_namespace :: string
  arg_output_suffix :: string

record world =
  w_database :: database
  w_open_error :: "string \<Rightarrow> string option"

datatype written = Stdout string | File string string

definition error_message :: "py_error \<Rightarrow> string" where
  \<comment> \<open>\<open>str(e)\<close>\<close>
  "error_message e =
     (case e of
        KeyError k \<Rightarrow> [CHR 0x27] @ k @ [CHR 0x27]
      | AttributeError m \<Rightarrow> m
      | DatabaseError m \<Rightarrow> m
      | OSError m \<Rightarrow> m)"

definition str_of_topic :: "string option \<Rightarrow> string" where
  "str_of_topic topic = (case topic of None \<Rightarrow> ''None'' | Some t \<Rightarrow> t)"

fun main_generate :: "string \<Rightarrow> Sink list \<Rightarrow> json list \<Rightarrow> log \<Rightarrow> (py_error + json list) \<times> log" where
  \<comment> \<open>\<open>for sink in sinks\<close>, with the list \<open>schemas\<close> and the log so far\<close>
  "main_generate ns [] schemas lg = (Inr schemas, lg)"
| "main_generate ns (sink # sinks) schemas lg =
     (let lg1 = lg @ [(Info, ''Generating schema for sink '' @ [CHR 0x27] @ sink_name sink @
                             [CHR 0x27] @ '' (topic: '' @ str_of_topic (sink_topic sink) @ '')'')]
      in case generate_schema ns sink of
           (Inl e, lg') \<Rightarrow> (Inl e, lg1 @ lg')
         | (Inr schema, lg') \<Rightarrow> main_generate ns sinks (schemas @ [schema]) (lg1 @ lg'))"

definition main_fail :: "log \<Rightarrow> py_error \<Rightarrow> int \<times> log \<times> written list" where
  \<comment> \<open>\<open>except Exception as e\<close>\<close>
  "main_fail lg e = (1, lg @ [(Error, ''Error: '' @ error_message e)], [])"

definition main_write :: "args \<Rightarrow> world \<Rightarrow> log \<Rightarrow> string \<Rightarrow> int \<times> log \<times> written list" where
  "main_write a w lg output =
     (let done = (Info, ''Schema generation completed successfully'')
      in case arg_output a of
           None \<Rightarrow> (0, lg @ [done], [Stdout output])
         | Some path \<Rightarrow>
             if path = [] then (0, lg @ [done], [Stdout output])
             else (case w_open_error w path of
                     Some e \<Rightarrow> main_fail lg (OSError e)
                   | None \<Rightarrow>
                       (0, lg @ [(Info, ''Schema configurations written to '' @ path), done],
                        [File path output])))"

definition main :: "args \<Rightarrow> world \<Rightarrow> int \<times> log \<times> written list" where
  "main a w =
     (let lg0 = [(Info, ''Connecting to Materialize at '' @ arg_host a @ '':'' @
                        show_int (arg_port a) @ ''...''),
                 (Info, ''Querying Kafka sinks...'')]
      in case get_sinks (w_database w) (arg_sinks a) of
           (Inl e, lg) \<Rightarrow> main_fail (lg0 @ lg) e
         | (Inr sinks, lg) \<Rightarrow>
             if sinks = [] then (1, lg0 @ lg @ [(Error, ''No sinks found'')], [])
             else (let lg1 = lg0 @ lg @
                              [(Info, ''Found '' @ show_nat (length sinks) @ '' sink(s)'')]
                   in case main_generate (arg_schema_namespace a) sinks [] lg1 of
                        (Inl e, lg2) \<Rightarrow> main_fail lg2 e
                      | (Inr schemas, lg2) \<Rightarrow>
                          (case (case arg_format a of
                                   Properties \<Rightarrow> format_properties sinks schemas (arg_output_suffix a)
                                 | Json \<Rightarrow> format_json sinks schemas (arg_output_suffix a))
                           of Inl e \<Rightarrow> main_fail lg2 e
                            | Inr output \<Rightarrow> main_write a w lg2 output)))"

section \<open>Example data\<close>

text \<open>
  A sink over three columns: \<open>id bigint not null\<close>, \<open>email text\<close>,
  \<open>created_at timestamp not null\<close>.
\<close>

definition scenario_columns :: "Column list" where
  "scenario_columns =
     [\<lparr>col_name = ''id'', col_type = ''bigint'', col_nullable = False, col_position = 1\<rparr>,
      \<lparr>col_name = ''email'', col_type = ''text'', col_nullable = True, col_position = 2\<rparr>,
      \<lparr>col_name = ''created_at'', col_type = ''timestamp'', col_nullable = False,
        col_position = 3\<rparr>]"

definition scenario_sink :: Sink where
  "scenario_sink =
     \<lparr>sink_name = ''orders_sink'', sink_topic = Some ''orders-noschema'',
      sink_source_object = ''orders'', sink_columns = scenario_columns\<rparr>"

definition scenario_schema :: json where
  "scenario_schema =
     JObj [(''type'', JStr ''struct''),
           (''fields'', JList
              [JObj [(''type'', JStr ''int64''), (''optional'', JBool False),
                     (''field'', JStr ''id'')],
               JObj [(''type'', JStr ''string''), (''optional'', JBool True),
                     (''field'', JStr ''email'')],
               JObj [(''type'', JStr ''int64''), (''optional'', JBool False),
                     (''field'', JStr ''created_at''),
                     (''name'', JStr ''org.apache.kafka.connect.data.Timestamp''),
                     (''version'', JInt 1)]]),
           (''optional'', JBool False),
           (''name'', JStr ''materialize.orders'')]"

text \<open>
  A catalog with three Kafka sinks and one sink of another type. The statement of
  \<open>broken_sink\<close> has no bracketed \<open>FROM\<close> clause, \<open>ghost_sink\<close> exports an object that
  is neither a materialized view nor a table, and \<open>orders_sink\<close> exports the
  materialized view \<open>orders\<close>, whose columns the catalog lists out of order.
\<close>

definition double_quoted :: "string \<Rightarrow> string" where
  "double_quoted s = CHR 0x22 # s @ [CHR 0x22]"

definition single_quoted :: "string \<Rightarrow> string" where
  "single_quoted s = CHR 0x27 # s @ [CHR 0x27]"

definition from_clause :: "string \<Rightarrow> string \<Rightarrow> string" where
  "from_clause ident object =
     ''FROM ['' @ ident @ '' AS '' @ double_quoted ''materialize'' @ ''.'' @
     double_quoted ''public'' @ ''.'' @ double_quoted object @ '']''"

definition orders_sql :: string where
  "orders_sql =
     ''CREATE SINK orders_sink '' @ from_clause ''u76'' ''orders'' @
     '' INTO KAFKA CONNECTION kafka_conn (TOPIC = '' @ single_quoted ''orders-noschema'' @
     '') FORMAT JSON ENVELOPE UPSERT''"

definition ghost_sql :: string where
  "ghost_sql =
     ''CREATE SINK ghost_sink '' @ from_clause ''u90'' ''ghost'' @
     '' INTO KAFKA CONNECTION kafka_conn (TOPIC = '' @ single_quoted ''ghost-noschema'' @
     '') FORMAT JSON ENVELOPE UPSERT''"

definition broken_sql :: string where
  "broken_sql =
     ''CREATE SINK broken_sink FROM orders INTO KAFKA CONNECTION kafka_conn (TOPIC = '' @
     single_quoted ''broken-noschema'' @ '') FORMAT JSON ENVELOPE UPSERT''"

definition untopiced_sql :: string where
  \<comment> \<open>the topic is given without the equals sign that the pattern asks for\<close>
  "untopiced_sql =
     ''CREATE SINK untopiced_sink '' @ from_clause ''u76'' ''orders'' @
     '' INTO KAFKA CONNECTION kafka_conn (TOPIC '' @ single_quoted ''orders-noschema'' @
     '') FORMAT JSON ENVELOPE UPSERT''"

definition orders_catalog_columns :: "mz_column list" where
  "orders_catalog_columns =
     [\<lparr>mzc_id = ''u76'', mzc_name = ''created_at'', mzc_type = ''timestamp'',
       mzc_nullable = False, mzc_position = 3\<rparr>,
      \<lparr>mzc_id = ''u76'', mzc_name = ''id'', mzc_type = ''bigint'',
       mzc_nullable = False, mzc_position = 1\<rparr>,
      \<lparr>mzc_id = ''u76'', mzc_name = ''email'', mzc_type = ''text'',
       mzc_nullable = True, mzc_position = 2\<rparr>]"

definition scenario_catalog :: catalog where
  "scenario_catalog =
     \<lparr>mz_sinks =
        [\<lparr>mzs_name = ''broken_sink'', mzs_create_sql = broken_sql, mzs_type = ''kafka''\<rparr>,
         \<lparr>mzs_name = ''ghost_sink'', mzs_create_sql = ghost_sql, mzs_type = ''kafka''\<rparr>,
         \<lparr>mzs_name = ''other_sink'', mzs_create_sql = orders_sql, mzs_type = ''iceberg''\<rparr>,
         \<lparr>mzs_name = ''orders_sink'', mzs_create_sql = orders_sql, mzs_type = ''kafka''\<rparr>],
      mz_materialized_views = [\<lparr>mzo_id = ''u76'', mzo_name = ''orders''\<rparr>],
      mz_tables = [],
      mz_columns = orders_catalog_columns\<rparr>"

definition scenario_database :: database where
  "scenario_database = \<lparr>db_connect_error = None, db_catalog = scenario_catalog\<rparr>"

text \<open>
  A catalog with two Kafka sinks over \<open>orders\<close>; the statement of the first one has
  no \<open>TOPIC = '...'\<close> clause.
\<close>

definition untopiced_catalog :: catalog where
  "untopiced_catalog =
     \<lparr>mz_sinks =
        [\<lparr>mzs_name = ''untopiced_sink'', mzs_create_sql = untopiced_sql,
          mzs_type = ''kafka''\<rparr>,
         \<lparr>mzs_name = ''orders_sink'', mzs_create_sql = orders_sql, mzs_type = ''kafka''\<rparr>],
      mz_materialized_views = [\<lparr>mzo_id = ''u76'', mzo_name = ''orders''\<rparr>],
      mz_tables = [],
      mz_columns = orders_catalog_columns\<rparr>"

definition untopiced_database :: database where
  "untopiced_database = \<lparr>db_connect_error = None, db_catalog = untopiced_catalog\<rparr>"

definition untopiced_sink :: Sink where
  "untopiced_sink =
     \<lparr>sink_name = ''untopiced_sink'', sink_topic = None,
      sink_source_object = ''orders'', sink_columns = scenario_columns\<rparr>"

definition scenario_args :: args where
  "scenario_args =
     \<lparr>arg_host = ''localhost'', arg_port = 6875, arg_sinks = None,
      arg_format = Properties, arg_output = None,
      arg_schema_namespace = ''materialize'', arg_output_suffix = ''-withschema''\<rparr>"

section \<open>Properties of the type mapper\<close>

lemma dict_get_contains: "dict_contains d k \<Longrightarrow> \<exists>v. dict_get d k = Inr v"
  by (induction d) auto

lemma dict_contains_keys: "dict_contains d k \<longleftrightarrow> k \<in> fst ` set d"
  by (induction d) auto

lemma dict_contains_TEMPORAL:
  "dict_contains TEMPORAL_TYPES n \<longleftrightarrow>
     n \<in> {''timestamp'', ''timestamp with time zone'', ''timestamp without time zone'',
          ''date'', ''time'', ''time with time zone'', ''time without time zone''}"
  by (auto simp: TEMPORAL_TYPES_def)

lemma map_type_temporal_value:
  assumes "dict_contains TEMPORAL_TYPES (normalize_type t)"
  obtains base logical
    where "dict_get TEMPORAL_TYPES (normalize_type t) = Inr (base, logical)"
      and "map_type t = (Inr (base, Some logical, Some [(''version'', JInt 1)]), [])"
proof -
  from dict_get_contains [OF assms]
  obtain v where v: "dict_get TEMPORAL_TYPES (normalize_type t) = Inr v" by blast
  obtain base logical where bl: "v = (base, logical)" by (cases v)
  from assms v bl
  have "map_type t = (Inr (base, Some logical, Some [(''version'', JInt 1)]), [])"
    by (simp add: map_type_def Let_def)
  with v bl that show thesis by blast
qed

text \<open>
  C2. Whenever the lower-cased, trimmed type name is one of the seven temporal names,
  \<open>map_type\<close> returns \<open>int64\<close> for the three timestamp names and \<open>int32\<close> for
  \<open>date\<close> and the three time names, with a non-empty logical type name and the
  additional properties \<open>{'version': 1}\<close>; nothing is logged.
\<close>

theorem map_type_temporal:
  assumes "normalize_type t \<in>
     {''timestamp'', ''timestamp with time zone'', ''timestamp without time zone'',
      ''date'', ''time'', ''time with time zone'', ''time without time zone''}"
  shows "\<exists>logical. logical \<noteq> [] \<and>
     map_type t =
       (Inr (if normalize_type t \<in>
                {''timestamp'', ''timestamp with time zone'', ''timestamp without time zone''}
             then ''int64'' else ''int32'',
             Some logical, Some [(''version'', JInt 1)]), [])"
proof -
  from assms have c: "dict_contains TEMPORAL_TYPES (normalize_type t)"
    by (simp only: dict_contains_TEMPORAL)
  then obtain base logical
    where g: "dict_get TEMPORAL_TYPES (normalize_type t) = Inr (base, logical)"
      and m: "map_type t = (Inr (base, Some logical, Some [(''version'', JInt 1)]), [])"
    by (rule map_type_temporal_value)
  from assms g have "logical \<noteq> [] \<and> base = (if normalize_type t \<in>
                {''timestamp'', ''timestamp with time zone'', ''timestamp without time zone''}
             then ''int64'' else ''int32'')"
    by (auto simp: TEMPORAL_TYPES_def)
  with m show ?thesis by auto
qed

theorem map_type_temporal_witness:
  "normalize_type ''  TimeStamp '' = ''timestamp'' \<and>
   map_type ''  TimeStamp '' =
     (Inr (''int64'', Some ''org.apache.kafka.connect.data.Timestamp'',
           Some [(''version'', JInt 1)]), [])"
proof -
  have n: "normalize_type ''  TimeStamp '' = ''timestamp''" by code_simp
  have m: "map_type ''  TimeStamp '' =
     (Inr (''int64'', Some ''org.apache.kafka.connect.data.Timestamp'',
           Some [(''version'', JInt 1)]), [])" by code_simp
  from n have "normalize_type ''  TimeStamp '' \<in>
     {''timestamp'', ''timestamp with time zone'', ''timestamp without time zone'',
      ''date'', ''time'', ''time with time zone'', ''time without time zone''}" by simp
  from map_type_temporal [OF this] n m show ?thesis by simp
qed

section \<open>Totality of the type mapper\<close>

lemma map_type_shape:
  "(normalize_type t \<in> {''timestamp'', ''timestamp with time zone'', ''timestamp without time zone'',
          ''date'', ''time'', ''time with time zone'', ''time without time zone''} \<and>
    (\<exists>base logical. logical \<noteq> [] \<and>
       map_type t = (Inr (base, Some logical, Some [(''version'', JInt 1)]), []))) \<or>
   (normalize_type t \<notin> {''timestamp'', ''timestamp with time zone'', ''timestamp without time zone'',
          ''date'', ''time'', ''time with time zone'', ''time without time zone''} \<and>
    (\<exists>kafka_type lg. map_type t = (Inr (kafka_type, None, None), lg)))"
proof (cases "dict_contains TEMPORAL_TYPES (normalize_type t)")
  case True
  then obtain base logical
    where g: "dict_get TEMPORAL_TYPES (normalize_type t) = Inr (base, logical)"
      and m: "map_type t = (Inr (base, Some logical, Some [(''version'', JInt 1)]), [])"
    by (rule map_type_temporal_value)
  from True have mem: "normalize_type t \<in>
     {''timestamp'', ''timestamp with time zone'', ''timestamp without time zone'',
      ''date'', ''time'', ''time with time zone'', ''time without time zone''}"
    by (simp only: dict_contains_TEMPORAL)
  from mem g have "logical \<noteq> []"
    by (auto simp: TEMPORAL_TYPES_def)
  with mem m show ?thesis by blast
next
  case nt: False
  have "\<exists>kafka_type lg. map_type t = (Inr (kafka_type, None, None), lg)"
  proof (cases "dict_contains TYPE_MAP (normalize_type t)")
    case True
    from dict_get_contains [OF True]
    obtain v where "dict_get TYPE_MAP (normalize_type t) = Inr v" by blast
    with nt True show ?thesis by (simp add: map_type_def Let_def)
  next
    case False
    with nt show ?thesis by (simp add: map_type_def Let_def)
  qed
  with nt show ?thesis by (simp only: dict_contains_TEMPORAL) blast
qed

lemma map_type_returns: "\<exists>m lg. map_type t = (Inr m, lg)"
  using map_type_shape [of t] by blast

text \<open>
  C3. \<open>map_type\<close> returns a mapping for every string: the \<open>KeyError\<close> of its two
  table lookups cannot occur, since each is guarded by the membership test. When the
  normalized name is a key of neither table, the result is \<open>string\<close> without a logical
  type name and without additional properties, and one warning is logged.
\<close>

theorem map_type_total:
  "(\<exists>m lg. map_type t = (Inr m, lg)) \<and>
   (normalize_type t \<notin> fst ` set TEMPORAL_TYPES \<and> normalize_type t \<notin> fst ` set TYPE_MAP \<longrightarrow>
      (\<exists>msg. map_type t = (Inr (''string'', None, None), [(Warning, msg)])))"
proof -
  have "normalize_type t \<notin> fst ` set TEMPORAL_TYPES \<and> normalize_type t \<notin> fst ` set TYPE_MAP \<longrightarrow>
      (\<exists>msg. map_type t = (Inr (''string'', None, None), [(Warning, msg)]))"
    by (simp add: dict_contains_keys [symmetric] map_type_def Let_def)
  with map_type_returns [of t] show ?thesis by blast
qed

theorem map_type_total_witness:
  "normalize_type ''INT[]'' \<notin> fst ` set TEMPORAL_TYPES \<and>
   normalize_type ''INT[]'' \<notin> fst ` set TYPE_MAP \<and>
   fst (map_type ''INT[]'') = Inr (''string'', None, None) \<and>
   fst (map_type ''jsonb'') = Inr (''string'', None, None) \<and>
   fst (map_type ''uuid'') = Inr (''string'', None, None)"
proof -
  have a: "\<not> dict_contains TEMPORAL_TYPES (normalize_type ''INT[]'')" by code_simp
  have b: "\<not> dict_contains TYPE_MAP (normalize_type ''INT[]'')" by code_simp
  have c: "fst (map_type ''jsonb'') = Inr (''string'', None, None)" by code_simp
  have d: "fst (map_type ''uuid'') = Inr (''string'', None, None)" by code_simp
  from a b have h: "normalize_type ''INT[]'' \<notin> fst ` set TEMPORAL_TYPES \<and>
      normalize_type ''INT[]'' \<notin> fst ` set TYPE_MAP"
    by (simp only: dict_contains_keys simp_thms)
  from map_type_total [of "''INT[]''"] h
  have "\<exists>msg. map_type ''INT[]'' = (Inr (''string'', None, None), [(Warning, msg)])" by blast
  then have "fst (map_type ''INT[]'') = Inr (''string'', None, None)" by auto
  with h c d show ?thesis by blast
qed

section \<open>The schema generator\<close>

lemma make_field_plain:
  "make_field c (kafka_type, None, None) =
     [(''type'', JStr kafka_type), (''optional'', JBool (col_nullable c)),
      (''field'', JStr (col_name c))]"
  by (simp add: make_field_def)

lemma make_field_logical:
  "logical \<noteq> [] \<Longrightarrow>
   make_field c (base, Some logical, Some [(''version'', JInt 1)]) =
     [(''type'', JStr base), (''optional'', JBool (col_nullable c)),
      (''field'', JStr (col_name c)), (''name'', JStr logical), (''version'', JInt 1)]"
  by (simp add: make_field_def dict_update_def)

lemma generate_fields_all2:
  "\<exists>fs lg'. generate_fields cols acc lg = (Inr (acc @ fs), lg') \<and>
     list_all2 (\<lambda>f c. \<exists>m l. map_type (col_type c) = (Inr m, l) \<and> f = JObj (make_field c m)) fs cols"
proof (induction cols arbitrary: acc lg)
  case Nil
  then show ?case by simp
next
  case (Cons c cols)
  from map_type_returns [of "col_type c"]
  obtain m l where m: "map_type (col_type c) = (Inr m, l)" by blast
  from Cons.IH [of "acc @ [JObj (make_field c m)]" "lg @ l"]
  obtain fs lg' where fs: "generate_fields cols (acc @ [JObj (make_field c m)]) (lg @ l) =
       (Inr ((acc @ [JObj (make_field c m)]) @ fs), lg')"
    and all2: "list_all2 (\<lambda>f c. \<exists>m l. map_type (col_type c) = (Inr m, l) \<and> f = JObj (make_field c m)) fs cols"
    by blast
  from m fs have "generate_fields (c # cols) acc lg = (Inr (acc @ (JObj (make_field c m) # fs)), lg')"
    by simp
  moreover from m all2
  have "list_all2 (\<lambda>f c. \<exists>m l. map_type (col_type c) = (Inr m, l) \<and> f = JObj (make_field c m))
          (JObj (make_field c m) # fs) (c # cols)"
    by (simp only: list.rel_inject) blast
  ultimately show ?case by blast
qed

lemma generate_schema_shape:
  "\<exists>fs lg. generate_schema ns sink =
      (Inr (JObj [(''type'', JStr ''struct''), (''fields'', JList fs),
                  (''optional'', JBool False),
                  (''name'', JStr (ns @ ''.'' @ sink_source_object sink))]), lg) \<and>
     list_all2 (\<lambda>f c. \<exists>m l. map_type (col_type c) = (Inr m, l) \<and> f = JObj (make_field c m))
       fs (sink_columns sink)"
proof -
  from generate_fields_all2 [of "sink_columns sink" "[]" "[]"]
  obtain fs lg where "generate_fields (sink_columns sink) [] [] = (Inr fs, lg)"
    and "list_all2 (\<lambda>f c. \<exists>m l. map_type (col_type c) = (Inr m, l) \<and> f = JObj (make_field c m))
       fs (sink_columns sink)"
    by auto
  then show ?thesis by (auto simp: generate_schema_def)
qed

lemma field_of_mapping:
  assumes "map_type (col_type c) = (Inr m, l)"
  shows "\<exists>d kafka_type logical_type extra.
           m = (kafka_type, logical_type, extra) \<and> make_field c m = d \<and>
           map_of d ''type'' = Some (JStr kafka_type) \<and>
           map_of d ''optional'' = Some (JBool (col_nullable c)) \<and>
           map_of d ''field'' = Some (JStr (col_name c))"
  using map_type_shape [of "col_type c"] assms
  by (auto simp: make_field_plain make_field_logical)

lemma sort_key_sorted_id: "sorted (map k xs) \<Longrightarrow> sort_key k xs = xs"
  by (induction xs) (auto simp: insort_is_Cons)

text \<open>
  C1. For every sink and every namespace argument, \<open>generate_schema\<close> returns a
  document of type \<open>struct\<close>, not optional, named \<open>namespace.source_object\<close>
  (\<open>materialize\<close> when no namespace is given), whose \<open>fields\<close> list is as long as
  the sink's column list and corresponds to it item by item: the field of a column has
  the column's name as \<open>field\<close>, its nullable flag as \<open>optional\<close> and the target type
  of \<open>map_type\<close> as \<open>type\<close>. The order is that of the column list; when the list
  ascends by position, as \<open>_get_columns\<close> delivers it, this is the position order.
\<close>

theorem generate_schema_fields:
  "\<exists>fs lg.
     generate_schema (SchemaGenerator_init namespace) sink =
       (Inr (JObj [(''type'', JStr ''struct''),
                   (''fields'', JList fs),
                   (''optional'', JBool False),
                   (''name'', JStr ((case namespace of None \<Rightarrow> ''materialize'' | Some ns \<Rightarrow> ns) @
                                   ''.'' @ sink_source_object sink))]), lg) \<and>
     length fs = length (sink_columns sink) \<and>
     list_all2
       (\<lambda>f c. \<exists>d kafka_type logical_type extra l.
          f = JObj d \<and>
          map_type (col_type c) = (Inr (kafka_type, logical_type, extra), l) \<and>
          map_of d ''type'' = Some (JStr kafka_type) \<and>
          map_of d ''optional'' = Some (JBool (col_nullable c)) \<and>
          map_of d ''field'' = Some (JStr (col_name c)))
       fs (sink_columns sink) \<and>
     (sorted (map col_position (sink_columns sink)) \<longrightarrow>
        list_all2 (\<lambda>f c. \<exists>d. f = JObj d \<and> map_of d ''field'' = Some (JStr (col_name c)))
          fs (sort_key col_position (sink_columns sink)))"
proof -
  have ns: "SchemaGenerator_init namespace = (case namespace of None \<Rightarrow> ''materialize'' | Some ns \<Rightarrow> ns)"
    by (cases namespace) (simp_all add: SchemaGenerator_init_def default_schema_namespace_def)
  from generate_schema_shape [of "SchemaGenerator_init namespace" sink]
  obtain fs lg where g: "generate_schema (SchemaGenerator_init namespace) sink =
      (Inr (JObj [(''type'', JStr ''struct''), (''fields'', JList fs),
                  (''optional'', JBool False),
                  (''name'', JStr (SchemaGenerator_init namespace @ ''.'' @ sink_source_object sink))]), lg)"
    and a: "list_all2 (\<lambda>f c. \<exists>m l. map_type (col_type c) = (Inr m, l) \<and> f = JObj (make_field c m))
       fs (sink_columns sink)"
    by blast
  from a have len: "length fs = length (sink_columns sink)" by (rule list_all2_lengthD)
  from a have b: "list_all2
       (\<lambda>f c. \<exists>d kafka_type logical_type extra l.
          f = JObj d \<and>
          map_type (col_type c) = (Inr (kafka_type, logical_type, extra), l) \<and>
          map_of d ''type'' = Some (JStr kafka_type) \<and>
          map_of d ''optional'' = Some (JBool (col_nullable c)) \<and>
          map_of d ''field'' = Some (JStr (col_name c)))
       fs (sink_columns sink)"
  proof (rule list_all2_mono)
    fix f c
    assume "\<exists>m l. map_type (col_type c) = (Inr m, l) \<and> f = JObj (make_field c m)"
    then obtain m l where m: "map_type (col_type c) = (Inr m, l)" and f: "f = JObj (make_field c m)"
      by blast
    from field_of_mapping [OF m] m f
    show "\<exists>d kafka_type logical_type extra l.
          f = JObj d \<and>
          map_type (col_type c) = (Inr (kafka_type, logical_type, extra), l) \<and>
          map_of d ''type'' = Some (JStr kafka_type) \<and>
          map_of d ''optional'' = Some (JBool (col_nullable c)) \<and>
          map_of d ''field'' = Some (JStr (col_name c))"
      by blast
  qed
  from b have c: "list_all2 (\<lambda>f c. \<exists>d. f = JObj d \<and> map_of d ''field'' = Some (JStr (col_name c)))
          fs (sink_columns sink)"
    by (rule list_all2_mono) blast
  have d: "sorted (map col_position (sink_columns sink)) \<longrightarrow>
        list_all2 (\<lambda>f c. \<exists>d. f = JObj d \<and> map_of d ''field'' = Some (JStr (col_name c)))
          fs (sort_key col_position (sink_columns sink))"
    using c by (simp add: sort_key_sorted_id)
  from g ns len b d show ?thesis by (simp only:) blast
qed
theorem generate_schema_fields_witness:
  "sorted (map col_position (sink_columns scenario_sink)) \<and>
   (\<exists>fs lg.
      generate_schema (SchemaGenerator_init None) scenario_sink =
        (Inr (JObj [(''type'', JStr ''struct''),
                    (''fields'', JList fs),
                    (''optional'', JBool False),
                    (''name'', JStr ''materialize.orders'')]), lg) \<and>
      length fs = 3 \<and>
      list_all2 (\<lambda>f c. \<exists>d. f = JObj d \<and> map_of d ''field'' = Some (JStr (col_name c)))
        fs (sort_key col_position (sink_columns scenario_sink)))"
proof -
  have s: "sorted (map col_position (sink_columns scenario_sink))"
    by (simp add: scenario_sink_def scenario_columns_def)
  have n: "sink_source_object scenario_sink = ''orders''"
    and l: "length (sink_columns scenario_sink) = 3"
    by (simp_all add: scenario_sink_def scenario_columns_def)
  from generate_schema_fields [of None scenario_sink] s n l show ?thesis
    by (simp only: option.case append.simps) blast
qed

text \<open>
  C4. In the document that \<open>generate_schema\<close> returns, the field of each column has the
  column's nullable flag as \<open>optional\<close>; when the column's normalized type is one of the
  seven temporal names the field has a non-empty \<open>name\<close> and \<open>version\<close> 1, and otherwise
  it has neither key.
\<close>

theorem generate_schema_logical_type:
  "\<exists>fs lg.
     generate_schema ns sink =
       (Inr (JObj [(''type'', JStr ''struct''),
                   (''fields'', JList fs),
                   (''optional'', JBool False),
                   (''name'', JStr (ns @ ''.'' @ sink_source_object sink))]), lg) \<and>
     list_all2
       (\<lambda>f c. \<exists>d. f = JObj d \<and>
          map_of d ''optional'' = Some (JBool (col_nullable c)) \<and>
          (if normalize_type (col_type c) \<in>
                {''timestamp'', ''timestamp with time zone'', ''timestamp without time zone'',
                 ''date'', ''time'', ''time with time zone'', ''time without time zone''}
           then (\<exists>logical. logical \<noteq> [] \<and> map_of d ''name'' = Some (JStr logical)) \<and>
                map_of d ''version'' = Some (JInt 1)
           else map_of d ''name'' = None \<and> map_of d ''version'' = None))
       fs (sink_columns sink)"
proof -
  from generate_schema_shape [of ns sink]
  obtain fs lg where g: "generate_schema ns sink =
      (Inr (JObj [(''type'', JStr ''struct''), (''fields'', JList fs),
                  (''optional'', JBool False),
                  (''name'', JStr (ns @ ''.'' @ sink_source_object sink))]), lg)"
    and a: "list_all2 (\<lambda>f c. \<exists>m l. map_type (col_type c) = (Inr m, l) \<and> f = JObj (make_field c m))
       fs (sink_columns sink)"
    by blast
  from a have "list_all2
       (\<lambda>f c. \<exists>d. f = JObj d \<and>
          map_of d ''optional'' = Some (JBool (col_nullable c)) \<and>
          (if normalize_type (col_type c) \<in>
                {''timestamp'', ''timestamp with time zone'', ''timestamp without time zone'',
                 ''date'', ''time'', ''time with time zone'', ''time without time zone''}
           then (\<exists>logical. logical \<noteq> [] \<and> map_of d ''name'' = Some (JStr logical)) \<and>
                map_of d ''version'' = Some (JInt 1)
           else map_of d ''name'' = None \<and> map_of d ''version'' = None))
       fs (sink_columns sink)"
  proof (rule list_all2_mono)
    fix f c
    assume "\<exists>m l. map_type (col_type c) = (Inr m, l) \<and> f = JObj (make_field c m)"
    then obtain m l where m: "map_type (col_type c) = (Inr m, l)" and f: "f = JObj (make_field c m)"
      by blast
    let ?T = "normalize_type (col_type c) \<in>
                {''timestamp'', ''timestamp with time zone'', ''timestamp without time zone'',
                 ''date'', ''time'', ''time with time zone'', ''time without time zone''}"
    let ?d = "make_field c m"
    have "map_of ?d ''optional'' = Some (JBool (col_nullable c)) \<and>
          (if ?T then (\<exists>logical. logical \<noteq> [] \<and> map_of ?d ''name'' = Some (JStr logical)) \<and>
                map_of ?d ''version'' = Some (JInt 1)
           else map_of ?d ''name'' = None \<and> map_of ?d ''version'' = None)"
    proof (cases ?T)
      case True
      with map_type_shape [of "col_type c"] m
      obtain base logical where ne: "logical \<noteq> []"
        and meq: "m = (base, Some logical, Some [(''version'', JInt 1)])"
        by auto
      from ne meq have d: "?d =
          [(''type'', JStr base), (''optional'', JBool (col_nullable c)),
           (''field'', JStr (col_name c)), (''name'', JStr logical), (''version'', JInt 1)]"
        by (simp add: make_field_logical)
      have "map_of ?d ''optional'' = Some (JBool (col_nullable c))"
        and "map_of ?d ''name'' = Some (JStr logical)"
        and "map_of ?d ''version'' = Some (JInt 1)"
        unfolding d by simp_all
      with ne show ?thesis unfolding if_P [OF True] by blast
    next
      case False
      with map_type_shape [of "col_type c"] m
      obtain kafka_type where meq: "m = (kafka_type, None, None)"
        by auto
      have d: "?d =
          [(''type'', JStr kafka_type), (''optional'', JBool (col_nullable c)),
           (''field'', JStr (col_name c))]"
        unfolding meq by (rule make_field_plain)
      have "map_of ?d ''optional'' = Some (JBool (col_nullable c))"
        and "map_of ?d ''name'' = None"
        and "map_of ?d ''version'' = None"
        unfolding d by simp_all
      then show ?thesis unfolding if_not_P [OF False] by blast
    qed
    with f show "\<exists>d. f = JObj d \<and>
          map_of d ''optional'' = Some (JBool (col_nullable c)) \<and>
          (if ?T then (\<exists>logical. logical \<noteq> [] \<and> map_of d ''name'' = Some (JStr logical)) \<and>
                map_of d ''version'' = Some (JInt 1)
           else map_of d ''name'' = None \<and> map_of d ''version'' = None)"
      by blast
  qed
  with g show ?thesis by blast
qed

section \<open>The output formatter\<close>

lemma format_properties_loop_lines:
  "map (\<lambda>p. sink_topic (fst p)) ps = map Some ts \<Longrightarrow>
   format_properties_loop ps suffix lines =
     Inr (lines @
          concat (map (\<lambda>(p, t).
                    [''# Sink: '' @ sink_name (fst p) @ '' (from '' @
                       sink_source_object (fst p) @ '')'',
                     ''schema.topic.'' @ t @ ''='' @ json_dumps_compact (snd p),
                     ''output.topic.'' @ t @ ''='' @ py_replace t ''-noschema'' [] @ suffix,
                     []])
                  (zip ps ts)))"
proof (induction ps arbitrary: ts lines)
  case Nil
  then show ?case by simp
next
  case (Cons p ps)
  from Cons.prems obtain t ts' where ts: "ts = t # ts'"
    and t: "sink_topic (fst p) = Some t"
    and rest: "map (\<lambda>p. sink_topic (fst p)) ps = map Some ts'"
    by (cases ts) auto
  obtain sink schema where p: "p = (sink, schema)" by (cases p)
  from Cons.IH [OF rest] t p ts show ?case
    by (simp add: output_topic_of_def Let_def)
qed

lemma update_entries:
  "(k', v') \<in> set (AList.update k v al) \<Longrightarrow> (k', v') = (k, v) \<or> (k', v') \<in> set al"
  by (induction al) (auto split: if_splits)

lemma format_json_loop_entries:
  assumes "map (\<lambda>p. sink_topic (fst p)) ps = map Some ts"
  shows "\<exists>output. format_json_loop ps suffix acc = Inr output \<and>
      fst ` set output = fst ` set acc \<union> (\<lambda>p. sink_name (fst p)) ` set ps \<and>
      (\<forall>(k, v) \<in> set output. (k, v) \<in> set acc \<or>
         (\<exists>p t. (p, t) \<in> set (zip ps ts) \<and> k = sink_name (fst p) \<and>
            v = JObj [(''input_topic'', JStr t),
                      (''output_topic'', JStr (py_replace t ''-noschema'' [] @ suffix)),
                      (''source_object'', JStr (sink_source_object (fst p))),
                      (''schema'', snd p)]))"
  using assms
proof (induction ps arbitrary: ts acc)
  case Nil
  then show ?case by auto
next
  case (Cons p ps)
  from Cons.prems obtain t ts' where ts: "ts = t # ts'"
    and t: "sink_topic (fst p) = Some t"
    and rest: "map (\<lambda>p. sink_topic (fst p)) ps = map Some ts'"
    by (cases ts) auto
  obtain sink schema where p: "p = (sink, schema)" by (cases p)
  let ?e = "JObj [(''input_topic'', JStr t),
                  (''output_topic'', JStr (py_replace t ''-noschema'' [] @ suffix)),
                  (''source_object'', JStr (sink_source_object sink)),
                  (''schema'', schema)]"
  let ?acc = "AList.update (sink_name sink) ?e acc"
  from Cons.IH [OF rest, of ?acc] obtain out
    where o: "format_json_loop ps suffix ?acc = Inr out"
      and keys: "fst ` set out = fst ` set ?acc \<union> (\<lambda>p. sink_name (fst p)) ` set ps"
      and ent: "\<forall>(k, v) \<in> set out. (k, v) \<in> set ?acc \<or>
         (\<exists>p t. (p, t) \<in> set (zip ps ts') \<and> k = sink_name (fst p) \<and>
            v = JObj [(''input_topic'', JStr t),
                      (''output_topic'', JStr (py_replace t ''-noschema'' [] @ suffix)),
                      (''source_object'', JStr (sink_source_object (fst p))),
                      (''schema'', snd p)])"
    by blast
  from o t p have 1: "format_json_loop (p # ps) suffix acc = Inr out"
    by (simp add: output_topic_of_def Let_def)
  from keys p have 2: "fst ` set out = fst ` set acc \<union> (\<lambda>p. sink_name (fst p)) ` set (p # ps)"
    by (auto simp: dom_update)
  have 3: "\<forall>(k, v) \<in> set out. (k, v) \<in> set acc \<or>
         (\<exists>q u. (q, u) \<in> set (zip (p # ps) ts) \<and> k = sink_name (fst q) \<and>
            v = JObj [(''input_topic'', JStr u),
                      (''output_topic'', JStr (py_replace u ''-noschema'' [] @ suffix)),
                      (''source_object'', JStr (sink_source_object (fst q))),
                      (''schema'', snd q)])"
  proof (clarify)
    fix k v
    assume kv: "(k, v) \<in> set out" and nacc: "\<not> (\<exists>q u. (q, u) \<in> set (zip (p # ps) ts) \<and> k = sink_name (fst q) \<and>
            v = JObj [(''input_topic'', JStr u),
                      (''output_topic'', JStr (py_replace u ''-noschema'' [] @ suffix)),
                      (''source_object'', JStr (sink_source_object (fst q))),
                      (''schema'', snd q)])"
    from ent kv have "(k, v) \<in> set ?acc \<or>
         (\<exists>p t. (p, t) \<in> set (zip ps ts') \<and> k = sink_name (fst p) \<and>
            v = JObj [(''input_topic'', JStr t),
                      (''output_topic'', JStr (py_replace t ''-noschema'' [] @ suffix)),
                      (''source_object'', JStr (sink_source_object (fst p))),
                      (''schema'', snd p)])"
      by blast
    with nacc ts have "(k, v) \<in> set ?acc" by auto
    from update_entries [OF this] have "(k, v) = (sink_name sink, ?e) \<or> (k, v) \<in> set acc" .
    with nacc ts p show "(k, v) \<in> set acc" by auto
  qed
  from 1 2 3 show ?case by blast
qed

text \<open>
  C5. When every sink that the formatter pairs with a schema has a topic, both
  encodings return text in which the output topic of each pair is the sink's topic
  with \<open>-noschema\<close> replaced by nothing, followed by the suffix: in the properties
  text, the line \<open>output.topic.<topic>=<output topic>\<close> of the pair's block; in the
  JSON text, the \<open>output_topic\<close> of every entry, the entries being keyed by the sink
  names. For the topic \<open>orders-noschema\<close> and the suffix \<open>-withschema\<close> the output
  topic is \<open>orders-withschema\<close>.
\<close>

theorem output_topic_derived:
  assumes "map (\<lambda>p. sink_topic (fst p)) (zip sinks schemas) = map Some topics"
  shows "(\<exists>output.
      format_properties sinks schemas suffix =
        Inr (py_join [CHR 0x0A]
          ([''# Generated schema configurations'', ''# Materialize JSON Schema Attacher'', []] @
           concat (map (\<lambda>(p, t).
                     [''# Sink: '' @ sink_name (fst p) @ '' (from '' @
                        sink_source_object (fst p) @ '')'',
                      ''schema.topic.'' @ t @ ''='' @ json_dumps_compact (snd p),
                      ''output.topic.'' @ t @ ''='' @ py_replace t ''-noschema'' [] @ suffix,
                      []])
                   (zip (zip sinks schemas) topics)))) \<and>
      format_json sinks schemas suffix = Inr (json_dumps_indent 0 (JObj output)) \<and>
      fst ` set output = (\<lambda>p. sink_name (fst p)) ` set (zip sinks schemas) \<and>
      (\<forall>(k, v) \<in> set output.
         \<exists>p t. (p, t) \<in> set (zip (zip sinks schemas) topics) \<and> k = sink_name (fst p) \<and>
           v = JObj [(''input_topic'', JStr t),
                     (''output_topic'', JStr (py_replace t ''-noschema'' [] @ suffix)),
                     (''source_object'', JStr (sink_source_object (fst p))),
                     (''schema'', snd p)])) \<and>
     py_replace ''orders-noschema'' ''-noschema'' [] @ ''-withschema'' = ''orders-withschema''"
proof -
  from format_json_loop_entries [OF assms, of suffix "[]"] obtain out
    where o: "format_json_loop (zip sinks schemas) suffix [] = Inr out"
      and keys: "fst ` set out = (\<lambda>p. sink_name (fst p)) ` set (zip sinks schemas)"
      and ent: "\<forall>(k, v) \<in> set out.
         \<exists>p t. (p, t) \<in> set (zip (zip sinks schemas) topics) \<and> k = sink_name (fst p) \<and>
           v = JObj [(''input_topic'', JStr t),
                     (''output_topic'', JStr (py_replace t ''-noschema'' [] @ suffix)),
                     (''source_object'', JStr (sink_source_object (fst p))),
                     (''schema'', snd p)]"
    by auto
  from o have j: "format_json sinks schemas suffix = Inr (json_dumps_indent 0 (JObj out))"
    by (simp add: format_json_def)
  have p: "format_properties sinks schemas suffix =
        Inr (py_join [CHR 0x0A]
          ([''# Generated schema configurations'', ''# Materialize JSON Schema Attacher'', []] @
           concat (map (\<lambda>(p, t).
                     [''# Sink: '' @ sink_name (fst p) @ '' (from '' @
                        sink_source_object (fst p) @ '')'',
                      ''schema.topic.'' @ t @ ''='' @ json_dumps_compact (snd p),
                      ''output.topic.'' @ t @ ''='' @ py_replace t ''-noschema'' [] @ suffix,
                      []])
                   (zip (zip sinks schemas) topics))))"
    unfolding format_properties_def format_properties_loop_lines [OF assms] by simp
  have e: "py_replace ''orders-noschema'' ''-noschema'' [] @ ''-withschema'' = ''orders-withschema''"
    by code_simp
  from p j keys ent e show ?thesis by blast
qed

theorem output_topic_derived_witness:
  "map (\<lambda>p. sink_topic (fst p)) (zip [scenario_sink] [JNull]) = map Some [''orders-noschema''] \<and>
   format_properties [scenario_sink] [JNull] ''-withschema'' =
     Inr (py_join [CHR 0x0A]
       [''# Generated schema configurations'', ''# Materialize JSON Schema Attacher'', [],
        ''# Sink: orders_sink (from orders)'',
        ''schema.topic.orders-noschema=null'',
        ''output.topic.orders-noschema=orders-withschema'',
        []]) \<and>
   (\<exists>out. format_json [scenario_sink] [JNull] ''-withschema'' =
        Inr (json_dumps_indent 0 (JObj out)) \<and>
      fst ` set out = {''orders_sink''} \<and>
      (\<forall>(k, v) \<in> set out.
         v = JObj [(''input_topic'', JStr ''orders-noschema''),
                   (''output_topic'', JStr ''orders-withschema''),
                   (''source_object'', JStr ''orders''),
                   (''schema'', JNull)]))"
proof -
  have h: "map (\<lambda>p. sink_topic (fst p)) (zip [scenario_sink] [JNull]) = map Some [''orders-noschema'']"
    by (simp add: scenario_sink_def)
  have e: "py_replace ''orders-noschema'' ''-noschema'' [] = ''orders''"
    by code_simp
  have n: "sink_name scenario_sink = ''orders_sink''"
    and so: "sink_source_object scenario_sink = ''orders''"
    by (simp_all add: scenario_sink_def)
  from output_topic_derived [OF h, of "''-withschema''"] obtain out
    where p: "format_properties [scenario_sink] [JNull] ''-withschema'' =
        Inr (py_join [CHR 0x0A]
          ([''# Generated schema configurations'', ''# Materialize JSON Schema Attacher'', []] @
           concat (map (\<lambda>(p, t).
                     [''# Sink: '' @ sink_name (fst p) @ '' (from '' @
                        sink_source_object (fst p) @ '')'',
                      ''schema.topic.'' @ t @ ''='' @ json_dumps_compact (snd p),
                      ''output.topic.'' @ t @ ''='' @ py_replace t ''-noschema'' [] @ ''-withschema'',
                      []])
                   (zip (zip [scenario_sink] [JNull]) [''orders-noschema'']))))"
      and j: "format_json [scenario_sink] [JNull] ''-withschema'' = Inr (json_dumps_indent 0 (JObj out))"
      and keys: "fst ` set out = (\<lambda>p. sink_name (fst p)) ` set (zip [scenario_sink] [JNull])"
      and ent: "\<forall>(k, v) \<in> set out.
         \<exists>p t. (p, t) \<in> set (zip (zip [scenario_sink] [JNull]) [''orders-noschema'']) \<and>
           k = sink_name (fst p) \<and>
           v = JObj [(''input_topic'', JStr t),
                     (''output_topic'', JStr (py_replace t ''-noschema'' [] @ ''-withschema'')),
                     (''source_object'', JStr (sink_source_object (fst p))),
                     (''schema'', snd p)]"
    by blast
  have p': "format_properties [scenario_sink] [JNull] ''-withschema'' =
     Inr (py_join [CHR 0x0A]
       [''# Generated schema configurations'', ''# Materialize JSON Schema Attacher'', [],
        ''# Sink: orders_sink (from orders)'',
        ''schema.topic.orders-noschema=null'',
        ''output.topic.orders-noschema=orders-withschema'',
        []])"
    unfolding p by (simp add: n so e del: py_join.simps)
  from keys have keys': "fst ` set out = {''orders_sink''}"
    by (simp add: n)
  have ent': "\<forall>(k, v) \<in> set out.
         v = JObj [(''input_topic'', JStr ''orders-noschema''),
                   (''output_topic'', JStr ''orders-withschema''),
                   (''source_object'', JStr ''orders''),
                   (''schema'', JNull)]"
  proof (clarify)
    fix k v
    assume "(k, v) \<in> set out"
    with ent have "\<exists>p t. (p, t) \<in> set (zip (zip [scenario_sink] [JNull]) [''orders-noschema'']) \<and>
           k = sink_name (fst p) \<and>
           v = JObj [(''input_topic'', JStr t),
                     (''output_topic'', JStr (py_replace t ''-noschema'' [] @ ''-withschema'')),
                     (''source_object'', JStr (sink_source_object (fst p))),
                     (''schema'', snd p)]"
      by blast
    then show "v = JObj [(''input_topic'', JStr ''orders-noschema''),
                   (''output_topic'', JStr ''orders-withschema''),
                   (''source_object'', JStr ''orders''),
                   (''schema'', JNull)]"
      by (simp add: so e)
  qed
  from h p' j keys' ent' show ?thesis by (intro conjI exI [of _ out])
qed

section \<open>The extractor\<close>

lemma get_sinks_loop_outcomes:
  "get_sinks_loop cat rows acc lg =
     (acc @ outcome_sinks cat rows, lg @ outcome_warnings cat rows)"
proof (induction rows arbitrary: acc lg)
  case Nil
  then show ?case by (simp add: outcome_sinks_def outcome_warnings_def)
next
  case (Cons row rows)
  obtain name create_sql where row: "row = (name, create_sql)" by (cases row)
  obtain topic source where p: "parse_create_sink create_sql = (topic, source)"
    by (cases "parse_create_sink create_sql")
  show ?case
  proof (cases source)
    case None
    with row p Cons.IH show ?thesis
      by (simp add: outcome_sinks_def outcome_warnings_def row_outcome_def)
  next
    case (Some so)
    with row p Cons.IH show ?thesis
      by (simp add: outcome_sinks_def outcome_warnings_def row_outcome_def Let_def)
  qed
qed

lemma outcome_sinks_append:
  "outcome_sinks cat (xs @ ys) = outcome_sinks cat xs @ outcome_sinks cat ys"
  by (simp add: outcome_sinks_def)

lemma outcome_warnings_append:
  "outcome_warnings cat (xs @ ys) = outcome_warnings cat xs @ outcome_warnings cat ys"
  by (simp add: outcome_warnings_def)

lemma get_sinks_connected:
  assumes "db_connect_error db = None"
  shows "get_sinks db names =
     (if select_sinks (db_catalog db) names = []
      then (Inr [], [(Warning, ''No Kafka sinks found'')])
      else (Inr (outcome_sinks (db_catalog db) (select_sinks (db_catalog db) names)),
            outcome_warnings (db_catalog db) (select_sinks (db_catalog db) names)))"
  using assms by (simp add: get_sinks_def connect_def Let_def get_sinks_loop_outcomes)

lemma match_delimited_nonempty: "match_delimited q s = Some (g, r) \<Longrightarrow> g \<noteq> []"
  by (auto simp: match_delimited_def Let_def split: option.splits if_splits)

lemma match_source_at_nonempty: "match_source_at s = Some so \<Longrightarrow> so \<noteq> []"
  unfolding match_source_at_def
  by (auto simp: bind_eq_Some_conv dest: match_delimited_nonempty)

lemma re_search_Some: "re_search m s = Some g \<Longrightarrow> \<exists>t. m t = Some g"
  by (induction s) (auto split: option.splits)

lemma source_object_nonempty: "re_search match_source_at s = Some so \<Longrightarrow> so \<noteq> []"
  by (blast dest: re_search_Some match_source_at_nonempty)

lemma row_outcome_skipped:
  assumes "re_search match_source_at create_sql = None \<or>
     (\<exists>so. re_search match_source_at create_sql = Some so \<and> get_columns cat so = [])"
  shows "\<exists>msg. row_outcome cat (name, create_sql) = Inl (Warning, msg)"
  using assms
  by (auto simp: row_outcome_def parse_create_sink_def Let_def warn_no_source_def
        warn_no_columns_def)

lemma row_outcome_kept:
  assumes "re_search match_source_at create_sql = Some so" and "get_columns cat so \<noteq> []"
  shows "row_outcome cat (name, create_sql) =
     Inr \<lparr>sink_name = name, sink_topic = re_search match_topic_at create_sql,
          sink_source_object = so, sink_columns = get_columns cat so\<rparr>"
  using assms source_object_nonempty [OF assms(1)]
  by (simp add: row_outcome_def parse_create_sink_def Let_def)

lemma outcome_sinks_names:
  "map sink_name (outcome_sinks cat rows) =
     map fst (filter (\<lambda>row. case re_search match_source_at (snd row) of
                                None \<Rightarrow> False
                              | Some so \<Rightarrow> get_columns cat so \<noteq> []) rows)"
proof (induction rows)
  case Nil
  then show ?case by (simp add: outcome_sinks_def)
next
  case (Cons row rows)
  obtain name create_sql where row: "row = (name, create_sql)" by (cases row)
  have step: "outcome_sinks cat (row # rows) =
      (case row_outcome cat row of Inl w \<Rightarrow> [] | Inr s \<Rightarrow> [s]) @ outcome_sinks cat rows"
    by (simp add: outcome_sinks_def)
  show ?case
  proof (cases "re_search match_source_at create_sql")
    case None
    with row_outcome_skipped [of create_sql cat name] row Cons.IH step show ?thesis
      by auto
  next
    case (Some so)
    show ?thesis
    proof (cases "get_columns cat so = []")
      case True
      with Some row_outcome_skipped [of create_sql cat name] row Cons.IH step show ?thesis
        by auto
    next
      case False
      with Some row_outcome_kept [of create_sql so cat name] row Cons.IH step show ?thesis
        by auto
    qed
  qed
qed

lemma get_columns_empty:
  "get_columns cat so = [] \<longleftrightarrow>
     select_columns (mz_materialized_views cat) (mz_columns cat) so = [] \<and>
     select_columns (mz_tables cat) (mz_columns cat) so = []"
  by (simp add: get_columns_def Let_def)

text \<open>
  C7. When the connection succeeds and the rows of the sink query are
  \<open>before @ [row] @ after\<close>, where the statement of \<open>row\<close> has no source object that
  the pattern finds, or one for which neither the materialized views nor the tables
  give a column, then \<open>get_sinks\<close> returns the sinks of \<open>before\<close> followed by the sinks
  of \<open>after\<close>, as the loop yields them for these rows alone, and logs the warnings
  of \<open>before\<close>, one warning for \<open>row\<close>, and the warnings of \<open>after\<close>. The names of the
  returned sinks are the names of the rows that resolve, in the order of the rows.
\<close>

theorem get_sinks_skips_unresolved:
  assumes "db_connect_error db = None"
    and "select_sinks (db_catalog db) names = before @ (name, create_sql) # after"
    and "re_search match_source_at create_sql = None \<or>
         (\<exists>so. re_search match_source_at create_sql = Some so \<and>
               select_columns (mz_materialized_views (db_catalog db))
                 (mz_columns (db_catalog db)) so = [] \<and>
               select_columns (mz_tables (db_catalog db))
                 (mz_columns (db_catalog db)) so = [])"
  shows "\<exists>msg sinks.
     get_sinks db names =
       (Inr sinks,
        snd (get_sinks_loop (db_catalog db) before [] []) @ [(Warning, msg)] @
        snd (get_sinks_loop (db_catalog db) after [] [])) \<and>
     sinks = fst (get_sinks_loop (db_catalog db) before [] []) @
             fst (get_sinks_loop (db_catalog db) after [] []) \<and>
     map sink_name sinks =
       map fst (filter (\<lambda>row. case re_search match_source_at (snd row) of
                                  None \<Rightarrow> False
                                | Some so \<Rightarrow> get_columns (db_catalog db) so \<noteq> [])
                       (before @ after))"
proof -
  let ?cat = "db_catalog db"
  from assms(3) have bad: "re_search match_source_at create_sql = None \<or>
     (\<exists>so. re_search match_source_at create_sql = Some so \<and> get_columns ?cat so = [])"
    by (simp only: get_columns_empty)
  from row_outcome_skipped [OF bad, of name]
  obtain msg where skip: "row_outcome ?cat (name, create_sql) = Inl (Warning, msg)" by blast
  have one_s: "outcome_sinks ?cat [(name, create_sql)] = []"
    and one_w: "outcome_warnings ?cat [(name, create_sql)] = [(Warning, msg)]"
    using skip by (simp_all add: outcome_sinks_def outcome_warnings_def)
  have split: "before @ (name, create_sql) # after = before @ [(name, create_sql)] @ after"
    by simp
  have g: "get_sinks db names =
     (Inr (outcome_sinks ?cat before @ outcome_sinks ?cat after),
      outcome_warnings ?cat before @ [(Warning, msg)] @ outcome_warnings ?cat after)"
    unfolding get_sinks_connected [OF assms(1)] assms(2) split
      outcome_sinks_append outcome_warnings_append one_s one_w
    by simp
  have names: "map sink_name (outcome_sinks ?cat before @ outcome_sinks ?cat after) =
       map fst (filter (\<lambda>row. case re_search match_source_at (snd row) of
                                  None \<Rightarrow> False
                                | Some so \<Rightarrow> get_columns ?cat so \<noteq> [])
                       (before @ after))"
    unfolding outcome_sinks_append [symmetric] by (rule outcome_sinks_names)
  from g names show ?thesis
    by (simp add: get_sinks_loop_outcomes)
qed

lemma source_of_broken_sql: "re_search match_source_at broken_sql = None"
  by code_simp

lemma source_of_ghost_sql: "re_search match_source_at ghost_sql = Some ''ghost''"
  by code_simp

lemma source_of_orders_sql: "re_search match_source_at orders_sql = Some ''orders''"
  by code_simp

lemma topic_of_orders_sql: "re_search match_topic_at orders_sql = Some ''orders-noschema''"
  by code_simp

lemma source_of_untopiced_sql: "re_search match_source_at untopiced_sql = Some ''orders''"
  by code_simp

lemma topic_of_untopiced_sql: "re_search match_topic_at untopiced_sql = None"
  by code_simp

lemma scenario_rows:
  "select_sinks scenario_catalog None =
     [(''broken_sink'', broken_sql), (''ghost_sink'', ghost_sql), (''orders_sink'', orders_sql)]"
  by (simp add: select_sinks_def scenario_catalog_def)

lemma untopiced_rows:
  "select_sinks untopiced_catalog None =
     [(''untopiced_sink'', untopiced_sql), (''orders_sink'', orders_sql)]"
  by (simp add: select_sinks_def untopiced_catalog_def)

lemma scenario_ghost_columns: "get_columns scenario_catalog ''ghost'' = []"
  by code_simp

lemma scenario_orders_columns: "get_columns scenario_catalog ''orders'' = scenario_columns"
  by code_simp

lemma untopiced_orders_columns: "get_columns untopiced_catalog ''orders'' = scenario_columns"
  by code_simp

lemma scenario_columns_nonempty: "scenario_columns \<noteq> []"
  by (simp add: scenario_columns_def)

theorem get_sinks_skips_unresolved_witness:
  "db_connect_error scenario_database = None \<and>
   select_sinks (db_catalog scenario_database) None =
     [(''broken_sink'', broken_sql)] @ (''ghost_sink'', ghost_sql) # [(''orders_sink'', orders_sql)] \<and>
   re_search match_source_at ghost_sql = Some ''ghost'' \<and>
   select_columns (mz_materialized_views (db_catalog scenario_database))
     (mz_columns (db_catalog scenario_database)) ''ghost'' = [] \<and>
   select_columns (mz_tables (db_catalog scenario_database))
     (mz_columns (db_catalog scenario_database)) ''ghost'' = [] \<and>
   (\<exists>msg. get_sinks scenario_database None =
      (Inr [scenario_sink], [warn_no_source ''broken_sink'', (Warning, msg)]))"
proof -
  have c: "db_connect_error scenario_database = None"
    and cat: "db_catalog scenario_database = scenario_catalog"
    by (simp_all add: scenario_database_def)
  have rows: "select_sinks (db_catalog scenario_database) None =
     [(''broken_sink'', broken_sql)] @ (''ghost_sink'', ghost_sql) # [(''orders_sink'', orders_sql)]"
    by (simp add: cat scenario_rows)
  have nocols: "select_columns (mz_materialized_views (db_catalog scenario_database))
        (mz_columns (db_catalog scenario_database)) ''ghost'' = [] \<and>
      select_columns (mz_tables (db_catalog scenario_database))
        (mz_columns (db_catalog scenario_database)) ''ghost'' = []"
    using scenario_ghost_columns by (simp only: cat get_columns_empty)
  have bad: "re_search match_source_at ghost_sql = None \<or>
         (\<exists>so. re_search match_source_at ghost_sql = Some so \<and>
               select_columns (mz_materialized_views (db_catalog scenario_database))
                 (mz_columns (db_catalog scenario_database)) so = [] \<and>
               select_columns (mz_tables (db_catalog scenario_database))
                 (mz_columns (db_catalog scenario_database)) so = [])"
    using nocols by (simp add: source_of_ghost_sql)
  have before: "get_sinks_loop scenario_catalog [(''broken_sink'', broken_sql)] [] [] =
      ([], [warn_no_source ''broken_sink''])"
    by (simp add: parse_create_sink_def source_of_broken_sql)
  have after: "get_sinks_loop scenario_catalog [(''orders_sink'', orders_sql)] [] [] =
      ([scenario_sink], [])"
    by (simp add: parse_create_sink_def source_of_orders_sql topic_of_orders_sql
          scenario_orders_columns scenario_columns_nonempty scenario_sink_def)
  from get_sinks_skips_unresolved [OF c rows bad]
  obtain msg sinks
    where g: "get_sinks scenario_database None =
       (Inr sinks,
        snd (get_sinks_loop (db_catalog scenario_database) [(''broken_sink'', broken_sql)] [] []) @
        [(Warning, msg)] @
        snd (get_sinks_loop (db_catalog scenario_database) [(''orders_sink'', orders_sql)] [] []))"
      and s: "sinks =
        fst (get_sinks_loop (db_catalog scenario_database) [(''broken_sink'', broken_sql)] [] []) @
        fst (get_sinks_loop (db_catalog scenario_database) [(''orders_sink'', orders_sql)] [] [])"
    by blast
  from s have s': "sinks = [scenario_sink]"
    unfolding cat before after by simp
  from g have "get_sinks scenario_database None =
      (Inr [scenario_sink], [warn_no_source ''broken_sink'', (Warning, msg)])"
    unfolding cat before after s' by simp
  then have "\<exists>msg. get_sinks scenario_database None =
      (Inr [scenario_sink], [warn_no_source ''broken_sink'', (Warning, msg)])" ..
  with c rows nocols source_of_ghost_sql show ?thesis
    by blast
qed

text \<open>
  C8. When the connection succeeds and the sink query, with the name filter of the
  arguments, gives no row, \<open>get_sinks\<close> returns the empty list and logs the warning
  \<open>No Kafka sinks found\<close>, and \<open>main\<close> logs the error \<open>No sinks found\<close>, writes nothing
  and returns the exit code 1.
\<close>

theorem no_sinks_exit_code:
  assumes "db_connect_error (w_database w) = None"
    and "select_sinks (db_catalog (w_database w)) (arg_sinks a) = []"
  shows "get_sinks (w_database w) (arg_sinks a) =
           (Inr [], [(Warning, ''No Kafka sinks found'')]) \<and>
         main a w =
           (1,
            [(Info, ''Connecting to Materialize at '' @ arg_host a @ '':'' @
                    show_int (arg_port a) @ ''...''),
             (Info, ''Querying Kafka sinks...''),
             (Warning, ''No Kafka sinks found''),
             (Error, ''No sinks found'')],
            [])"
proof -
  from assms have g: "get_sinks (w_database w) (arg_sinks a) =
           (Inr [], [(Warning, ''No Kafka sinks found'')])"
    by (simp add: get_sinks_connected)
  then show ?thesis by (simp add: main_def)
qed

theorem no_sinks_exit_code_witness:
  "db_connect_error scenario_database = None \<and>
   select_sinks (db_catalog scenario_database) (Some [''payments_sink'']) = [] \<and>
   get_sinks scenario_database (Some [''payments_sink'']) =
     (Inr [], [(Warning, ''No Kafka sinks found'')]) \<and>
   fst (main (scenario_args\<lparr>arg_sinks := Some [''payments_sink'']\<rparr>)
             \<lparr>w_database = scenario_database, w_open_error = (\<lambda>path. None)\<rparr>) = 1"
proof -
  let ?a = "scenario_args\<lparr>arg_sinks := Some [''payments_sink'']\<rparr>"
  let ?w = "\<lparr>w_database = scenario_database, w_open_error = (\<lambda>path. None)\<rparr>"
  have c: "db_connect_error (w_database ?w) = None"
    by (simp add: scenario_database_def)
  have r: "select_sinks (db_catalog (w_database ?w)) (arg_sinks ?a) = []"
    by (simp add: select_sinks_def scenario_database_def scenario_catalog_def)
  from no_sinks_exit_code [OF c r] c r show ?thesis by simp
qed

lemma outcome_sinks_member:
  "row \<in> set rows \<Longrightarrow> row_outcome cat row = Inr s \<Longrightarrow> s \<in> set (outcome_sinks cat rows)"
  by (force simp: outcome_sinks_def)

text \<open>
  C10. When the connection succeeds and the sink query gives a row whose statement
  has no topic that the pattern finds, but a source object with at least one column,
  \<open>get_sinks\<close> returns a list that contains the sink of this row with \<open>None\<close> as
  its topic.
\<close>

theorem topic_not_validated:
  assumes "db_connect_error db = None"
    and "(name, create_sql) \<in> set (select_sinks (db_catalog db) names)"
    and "re_search match_topic_at create_sql = None"
    and "re_search match_source_at create_sql = Some so"
    and "get_columns (db_catalog db) so \<noteq> []"
  shows "\<exists>sinks lg. get_sinks db names = (Inr sinks, lg) \<and>
     \<lparr>sink_name = name, sink_topic = None, sink_source_object = so,
      sink_columns = get_columns (db_catalog db) so\<rparr> \<in> set sinks"
proof -
  let ?cat = "db_catalog db"
  from row_outcome_kept [OF assms(4,5), of name] assms(3)
  have "row_outcome ?cat (name, create_sql) =
     Inr \<lparr>sink_name = name, sink_topic = None, sink_source_object = so,
          sink_columns = get_columns ?cat so\<rparr>"
    by simp
  from outcome_sinks_member [OF assms(2) this]
  have m: "\<lparr>sink_name = name, sink_topic = None, sink_source_object = so,
      sink_columns = get_columns ?cat so\<rparr> \<in> set (outcome_sinks ?cat (select_sinks ?cat names))" .
  from assms(2) have "select_sinks ?cat names \<noteq> []" by auto
  with m show ?thesis by (simp add: get_sinks_connected [OF assms(1)])
qed

theorem topic_not_validated_witness:
  "db_connect_error untopiced_database = None \<and>
   (''untopiced_sink'', untopiced_sql) \<in> set (select_sinks (db_catalog untopiced_database) None) \<and>
   re_search match_topic_at untopiced_sql = None \<and>
   re_search match_source_at untopiced_sql = Some ''orders'' \<and>
   get_columns (db_catalog untopiced_database) ''orders'' \<noteq> [] \<and>
   (\<exists>sinks lg. get_sinks untopiced_database None = (Inr sinks, lg) \<and>
      untopiced_sink \<in> set sinks)"
proof -
  have c: "db_connect_error untopiced_database = None"
    and cat: "db_catalog untopiced_database = untopiced_catalog"
    by (simp_all add: untopiced_database_def)
  have r: "(''untopiced_sink'', untopiced_sql) \<in> set (select_sinks (db_catalog untopiced_database) None)"
    by (simp add: cat untopiced_rows)
  have cols: "get_columns (db_catalog untopiced_database) ''orders'' \<noteq> []"
    by (simp add: cat untopiced_orders_columns scenario_columns_nonempty)
  from topic_not_validated [OF c r topic_of_untopiced_sql source_of_untopiced_sql cols]
  have "\<exists>sinks lg. get_sinks untopiced_database None = (Inr sinks, lg) \<and>
      untopiced_sink \<in> set sinks"
    by (simp add: cat untopiced_orders_columns untopiced_sink_def)
  with c r cols show ?thesis
    by (simp add: topic_of_untopiced_sql source_of_untopiced_sql)
qed

section \<open>A sink without a topic\<close>

lemma get_columns_sorted: "sorted (map col_position (get_columns cat object_name))"
  by (simp add: get_columns_def select_columns_def Let_def comp_def)

lemma generate_schema_returns: "\<exists>schema lg. generate_schema ns sink = (Inr schema, lg)"
  using generate_schema_shape [of ns sink] by blast

lemma main_generate_returns:
  "\<exists>schemas lg'. main_generate ns sinks acc lg = (Inr (acc @ schemas), lg') \<and>
     length schemas = length sinks"
proof (induction sinks arbitrary: acc lg)
  case Nil
  then show ?case by simp
next
  case (Cons sink sinks)
  from generate_schema_returns [of ns sink]
  obtain schema l where s: "generate_schema ns sink = (Inr schema, l)" by blast
  let ?lg1 = "lg @ [(Info, ''Generating schema for sink '' @ [CHR 0x27] @ sink_name sink @
                             [CHR 0x27] @ '' (topic: '' @ str_of_topic (sink_topic sink) @ '')'')]"
  from Cons.IH [of "acc @ [schema]" "?lg1 @ l"]
  obtain schemas lg' where r: "main_generate ns sinks (acc @ [schema]) (?lg1 @ l) =
      (Inr ((acc @ [schema]) @ schemas), lg')" and len: "length schemas = length sinks"
    by blast
  from s r have "main_generate ns (sink # sinks) acc lg = (Inr (acc @ (schema # schemas)), lg')"
    by (simp add: Let_def)
  with len show ?case by (intro exI [of _ "schema # schemas"] exI [of _ lg']) simp
qed

lemma untopiced_sinks:
  "get_sinks untopiced_database None = (Inr [untopiced_sink, scenario_sink], [])"
proof -
  have c: "db_connect_error untopiced_database = None"
    and cat: "db_catalog untopiced_database = untopiced_catalog"
    by (simp_all add: untopiced_database_def)
  show ?thesis
    unfolding get_sinks_connected [OF c] cat untopiced_rows
    by (simp add: outcome_sinks_def outcome_warnings_def row_outcome_def parse_create_sink_def
          topic_of_untopiced_sql source_of_untopiced_sql topic_of_orders_sql
          source_of_orders_sql untopiced_orders_columns scenario_columns_nonempty
          untopiced_sink_def scenario_sink_def)
qed

lemma first_topic_missing_properties:
  "sink_topic sink = None \<Longrightarrow>
   format_properties (sink # sinks) (schema # schemas) suffix = Inl NoneType_has_no_replace"
  by (simp add: format_properties_def)

lemma first_topic_missing_json:
  "sink_topic sink = None \<Longrightarrow>
   format_json (sink # sinks) (schema # schemas) suffix = Inl NoneType_has_no_replace"
  by (simp add: format_json_def)

text \<open>
  C6. The catalog \<open>untopiced_catalog\<close> holds two Kafka sinks over the materialized
  view \<open>orders\<close>. \<open>get_sinks\<close> returns both, the first with \<open>None\<close> as its topic;
  \<open>generate_schema\<close> gives the schema of \<open>orders\<close> for it; on these sinks and
  schemas \<open>format_properties\<close> and \<open>format_json\<close> raise \<open>AttributeError\<close> instead of
  returning text, and \<open>main\<close> logs the error, writes nothing and returns 1.
\<close>

theorem formatters_raise_without_topic:
  "get_sinks untopiced_database None = (Inr [untopiced_sink, scenario_sink], []) \<and>
   generate_schema ''materialize'' untopiced_sink = (Inr scenario_schema, []) \<and>
   generate_schema ''materialize'' scenario_sink = (Inr scenario_schema, []) \<and>
   format_properties [untopiced_sink, scenario_sink] [scenario_schema, scenario_schema]
     ''-withschema'' = Inl NoneType_has_no_replace \<and>
   format_json [untopiced_sink, scenario_sink] [scenario_schema, scenario_schema]
     ''-withschema'' = Inl NoneType_has_no_replace \<and>
   (\<exists>lg. main scenario_args
            \<lparr>w_database = untopiced_database, w_open_error = (\<lambda>path. None)\<rparr> =
          (1, lg @ [(Error, ''Error: '' @ error_message NoneType_has_no_replace)], []))"
proof -
  have t: "sink_topic untopiced_sink = None" by (simp add: untopiced_sink_def)
  have g1: "generate_schema ''materialize'' untopiced_sink = (Inr scenario_schema, [])"
    by code_simp
  have g2: "generate_schema ''materialize'' scenario_sink = (Inr scenario_schema, [])"
    by code_simp
  let ?w = "\<lparr>w_database = untopiced_database, w_open_error = (\<lambda>path. None)\<rparr>"
  let ?lg1 = "[(Info, ''Connecting to Materialize at '' @ arg_host scenario_args @ '':'' @
                      show_int (arg_port scenario_args) @ ''...''),
               (Info, ''Querying Kafka sinks...'')] @ [] @
              [(Info, ''Found '' @ show_nat (length [untopiced_sink, scenario_sink]) @ '' sink(s)'')]"
  from main_generate_returns [of "''materialize''" "[untopiced_sink, scenario_sink]" "[]" ?lg1]
  obtain schemas lg2
    where mg: "main_generate ''materialize'' [untopiced_sink, scenario_sink] [] ?lg1 =
                 (Inr schemas, lg2)"
      and len: "length schemas = 2"
    by auto
  from len obtain schema rest where sc: "schemas = schema # rest" by (cases schemas) auto
  have fp: "format_properties [untopiced_sink, scenario_sink] schemas ''-withschema'' =
      Inl NoneType_has_no_replace"
    unfolding sc by (rule first_topic_missing_properties [OF t])
  have a: "arg_sinks scenario_args = None" "arg_format scenario_args = Properties"
    "arg_schema_namespace scenario_args = ''materialize''"
    "arg_output_suffix scenario_args = ''-withschema''"
    by (simp_all add: scenario_args_def)
  have m: "main scenario_args ?w =
      (1, lg2 @ [(Error, ''Error: '' @ error_message NoneType_has_no_replace)], [])"
    unfolding main_def Let_def
    by (simp only: world.simps a untopiced_sinks prod.case sum.case list.simps if_False
          mg fp output_format.case main_fail_def)
  from untopiced_sinks g1 g2 m
    first_topic_missing_properties [OF t, of "[scenario_sink]" scenario_schema "[scenario_schema]" "''-withschema''"]
    first_topic_missing_json [OF t, of "[scenario_sink]" scenario_schema "[scenario_schema]" "''-withschema''"]
  show ?thesis by blast
qed
lemma outcome_sinks_origin:
  "s \<in> set (outcome_sinks cat rows) \<Longrightarrow> \<exists>row \<in> set rows. row_outcome cat row = Inr s"
  by (auto simp: outcome_sinks_def split: sum.splits)

lemma row_outcome_columns:
  "row_outcome cat row = Inr s \<Longrightarrow> sink_columns s = get_columns cat (sink_source_object s)"
  by (auto simp: row_outcome_def split: prod.splits option.splits if_splits)

lemma get_sinks_columns_sorted:
  assumes "get_sinks db names = (Inr sinks, lg)" and "s \<in> set sinks"
  shows "sorted (map col_position (sink_columns s))"
proof (cases "db_connect_error db")
  case (Some e)
  with assms(1) show ?thesis by (simp add: get_sinks_def connect_def)
next
  case None
  from assms get_sinks_connected [OF None, of names]
  have "s \<in> set (outcome_sinks (db_catalog db) (select_sinks (db_catalog db) names))"
    by (auto split: if_splits)
  then obtain row where "row_outcome (db_catalog db) row = Inr s"
    by (blast dest: outcome_sinks_origin)
  then have "sink_columns s = get_columns (db_catalog db) (sink_source_object s)"
    by (rule row_outcome_columns)
  then show ?thesis by (simp add: get_columns_sorted)
qed

end
